theory Spec2Isabelle
  imports Main "HOL-Library.Sublist"
begin

section \<open>Data model\<close>

text \<open>
  The scraper of \<^verbatim>\<open>scraper.py\<close> is a sequential orchestration of calls to the data
  provider (yfinance), to pandas and to the operating system. Those collaborators are
  not part of the program: what they answer is a parameter of the model (the record
  \<open>env\<close> below), and what the program does with the answers is embedded as it is written.
  Every Python exception is a value of type \<open>error\<close>; all of them are subclasses of
  \<^verbatim>\<open>Exception\<close>, so each \<^verbatim>\<open>except Exception\<close> of the source catches every one.
  Calls to the logger are left out: they change no program variable and do not raise.
\<close>

datatype error = AttributeError | TypeError | ValueError | OSError | ProviderError

text \<open>A pandas DataFrame: its shape and its (uninterpreted) cells.\<close>

datatype dataframe = DataFrame (nrows: nat) (ncols: nat) (cells: string)

text \<open>The Python values that the provider hands out and that \<^verbatim>\<open>save_data\<close> receives.\<close>

datatype pyval =
    PyNone
  | PyStr string
  | PyList "pyval list"
  | PyDict "(string \<times> pyval) list"
  | PySeries "string list"
  | PyFrame dataframe

text \<open>What a file holds: the CSV rendering of a frame, or text.\<close>

datatype content = Csv dataframe | Text string

text \<open>
  How a write of a file ends: it succeeds, \<^verbatim>\<open>open\<close> raises (nothing is created), or the
  file is created and the write into it raises.
\<close>

datatype io_outcome = IoOk | OpenRaises | WriteRaises

text \<open>One attempt of the retry loop: \<^verbatim>\<open>yf.Ticker(symbol)\<close> raises, or the object is built and
  the validation \<^verbatim>\<open>ticker.info.get('shortName', None)\<close> raises, or both succeed.\<close>

datatype attempt_outcome = CtorRaises error | InfoRaises error | Valid

datatype category =
    CompanyInfo | Historical
  | IncomeStmt | BalanceSheet | CashFlow
  | QuarterlyIncome | QuarterlyBalance | QuarterlyCashflow
  | MajorHolders | Recommendations | Esg | News | Actions | Dividends | Splits

text \<open>The observable calls of a run, in the order in which they are made.\<close>

datatype event =
    EvAttempt nat
  | EvSleep int
  | EvMakedirs string
  | EvFetch category
  | EvSaveData string bool

record world =
  dirs :: "string list"
  files :: "(string \<times> content) list"
  trace :: "event list"

text \<open>The answers of the collaborators during one call of \<^verbatim>\<open>get_stock_data\<close>.\<close>

record env =
  attempts :: "nat \<Rightarrow> attempt_outcome"
  makedirs_error :: "string \<Rightarrow> error option"
  fetch :: "category \<Rightarrow> error + pyval"
  write_outcome :: "string \<Rightarrow> io_outcome"
  from_dict :: "pyval \<Rightarrow> error + dataframe"
  to_frame :: "pyval \<Rightarrow> error + dataframe"
  repr :: "pyval \<Rightarrow> string"
  now :: string

definition emit :: "event \<Rightarrow> world \<Rightarrow> world" where
  "emit e w = w\<lparr>trace := trace w @ [e]\<rparr>"

section \<open>Python and library primitives\<close>

text \<open>\<^verbatim>\<open>s.replace(old, new)\<close> for a one-character \<open>old\<close>.\<close>

definition replace_char :: "char \<Rightarrow> string \<Rightarrow> string \<Rightarrow> string" where
  "replace_char old new s = concat (map (\<lambda>c. if c = old then new else [c]) s)"

text \<open>\<^verbatim>\<open>str.isspace\<close> on the code points below 256.\<close>

definition py_isspace :: "char \<Rightarrow> bool" where
  "py_isspace c = (of_char c \<in> {9, 10, 11, 12, 13, 28, 29, 30, 31, 32, 133, 160 :: nat})"

definition strip :: "string \<Rightarrow> string" where
  "strip s = rev (dropWhile py_isspace (rev (dropWhile py_isspace s)))"

text \<open>\<^verbatim>\<open>os.path.join(a, b)\<close> of posixpath, for two components.\<close>

definition os_path_join :: "string \<Rightarrow> string \<Rightarrow> string" where
  "os_path_join a b =
     (if b \<noteq> [] \<and> hd b = CHR ''/'' then b
      else if a = [] \<or> last a = CHR ''/'' then a @ b
      else a @ ''/'' @ b)"

definition os_path_exists :: "world \<Rightarrow> string \<Rightarrow> bool" where
  "os_path_exists w p = (p \<in> set (dirs w) \<or> p \<in> fst ` set (files w))"

text \<open>\<^verbatim>\<open>os.makedirs(p)\<close>: raises what the operating system answers, or creates the directory.\<close>

definition os_makedirs :: "env \<Rightarrow> string \<Rightarrow> world \<Rightarrow> (error + unit) \<times> world" where
  "os_makedirs E p w =
     (let w1 = emit (EvMakedirs p) w in
      case makedirs_error E p of
        Some e \<Rightarrow> (Inl e, w1)
      | None \<Rightarrow> (Inr (), w1\<lparr>dirs := dirs w1 @ [p]\<rparr>))"

text \<open>Writing \<open>c\<close> to the file at \<open>p\<close> (\<^verbatim>\<open>to_csv\<close>, or \<^verbatim>\<open>open(p, 'w')\<close> and \<^verbatim>\<open>f.write\<close>).\<close>

definition store :: "string \<Rightarrow> content \<Rightarrow> world \<Rightarrow> world" where
  "store p c w = w\<lparr>files := (p, c) # filter (\<lambda>(q, _). q \<noteq> p) (files w)\<rparr>"

definition write_file :: "env \<Rightarrow> string \<Rightarrow> content \<Rightarrow> world \<Rightarrow> (error + unit) \<times> world" where
  "write_file E p c w =
     (case write_outcome E p of
        IoOk \<Rightarrow> (Inr (), store p c w)
      | OpenRaises \<Rightarrow> (Inl OSError, w)
      | WriteRaises \<Rightarrow> (Inl OSError, store p (Text []) w))"

text \<open>\<^verbatim>\<open>time.sleep(delay)\<close> raises ValueError on a negative delay.\<close>

definition time_sleep :: "int \<Rightarrow> world \<Rightarrow> (error + unit) \<times> world" where
  "time_sleep delay w =
     (if delay < 0 then (Inl ValueError, w) else (Inr (), emit (EvSleep delay) w))"

text \<open>The attribute \<^verbatim>\<open>.empty\<close>: frames and series have it.\<close>

fun py_empty :: "pyval \<Rightarrow> error + bool" where
  "py_empty (PyFrame d) = Inr (nrows d = 0 \<or> ncols d = 0)"
| "py_empty (PySeries xs) = Inr (xs = [])"
| "py_empty _ = Inl AttributeError"

text \<open>\<^verbatim>\<open>len(x)\<close>.\<close>

fun py_len :: "pyval \<Rightarrow> error + nat" where
  "py_len PyNone = Inl TypeError"
| "py_len (PyStr s) = Inr (length s)"
| "py_len (PyList xs) = Inr (length xs)"
| "py_len (PyDict kvs) = Inr (length kvs)"
| "py_len (PySeries xs) = Inr (length xs)"
| "py_len (PyFrame d) = Inr (nrows d)"

text \<open>\<^verbatim>\<open>bool(x)\<close>: pandas objects refuse to be a truth value.\<close>

fun py_bool :: "pyval \<Rightarrow> error + bool" where
  "py_bool PyNone = Inr False"
| "py_bool (PyStr s) = Inr (s \<noteq> [])"
| "py_bool (PyList xs) = Inr (xs \<noteq> [])"
| "py_bool (PyDict kvs) = Inr (kvs \<noteq> [])"
| "py_bool (PySeries xs) = Inl ValueError"
| "py_bool (PyFrame d) = Inl ValueError"

text \<open>\<^verbatim>\<open>str(x)\<close>: a string is itself, any other object has the rendering the library gives it.\<close>

definition py_str :: "env \<Rightarrow> pyval \<Rightarrow> string" where
  "py_str E v = (case v of PyStr s \<Rightarrow> s | _ \<Rightarrow> repr E v)"

fun digit_char :: "nat \<Rightarrow> char" where
  "digit_char n = char_of (48 + n)"

fun str_nat :: "nat \<Rightarrow> string" where
  "str_nat n = (if n < 10 then [digit_char n] else str_nat (n div 10) @ [digit_char (n mod 10)])"

section \<open>The program\<close>

subsection \<open>\<^verbatim>\<open>create_output_directory\<close>\<close>

definition output_dir_name :: "string \<Rightarrow> string" where
  "output_dir_name ticker_symbol = ''stock_data_'' @ replace_char CHR ''.'' ''_'' ticker_symbol"

definition create_output_directory :: "env \<Rightarrow> string \<Rightarrow> world \<Rightarrow> (error + string) \<times> world" where
  "create_output_directory E ticker_symbol w =
     (let output_dir = output_dir_name ticker_symbol in
      if \<not> os_path_exists w output_dir then
        (case os_makedirs E output_dir w of
           (Inl e, w1) \<Rightarrow> (Inl e, w1)
         | (Inr _, w1) \<Rightarrow> (Inr output_dir, w1))
      else (Inr output_dir, w))"

subsection \<open>\<^verbatim>\<open>save_data\<close>\<close>

text \<open>The body of the \<^verbatim>\<open>try\<close> of \<^verbatim>\<open>save_data\<close>: the three branches on the type of the data.\<close>

definition save_data_try :: "env \<Rightarrow> pyval \<Rightarrow> string \<Rightarrow> world \<Rightarrow> (error + bool) \<times> world" where
  "save_data_try E data filepath w =
     (case data of
        PyFrame d \<Rightarrow>
          (case write_file E filepath (Csv d) w of
             (Inl e, w1) \<Rightarrow> (Inl e, w1)
           | (Inr _, w1) \<Rightarrow> (Inr True, w1))
      | PyDict kvs \<Rightarrow>
          (case from_dict E data of
             Inl e \<Rightarrow> (Inl e, w)
           | Inr df \<Rightarrow>
               if \<not> (nrows df = 0 \<or> ncols df = 0) then
                 (case write_file E filepath (Csv df) w of
                    (Inl e, w1) \<Rightarrow> (Inl e, w1)
                  | (Inr _, w1) \<Rightarrow> (Inr True, w1))
               else (Inr False, w))
      | _ \<Rightarrow>
          (let content = py_str E data in
           if strip content \<noteq> [] then
             (case write_file E filepath (Text content) w of
                (Inl e, w1) \<Rightarrow> (Inl e, w1)
              | (Inr _, w1) \<Rightarrow> (Inr True, w1))
           else (Inr False, w)))"

definition save_data :: "env \<Rightarrow> pyval \<Rightarrow> string \<Rightarrow> string \<Rightarrow> world \<Rightarrow> bool \<times> world" where
  "save_data E data filename output_dir w =
     (let filepath = os_path_join output_dir filename in
      if data = PyNone \<or> (case data of PyFrame d \<Rightarrow> nrows d = 0 \<or> ncols d = 0 | _ \<Rightarrow> False)
      then (False, emit (EvSaveData filename False) w)
      else
        (case save_data_try E data filepath w of
           (Inl e, w1) \<Rightarrow> (False, emit (EvSaveData filename False) w1)
         | (Inr b, w1) \<Rightarrow> (b, emit (EvSaveData filename b) w1)))"

subsection \<open>\<^verbatim>\<open>get_stock_data\<close>\<close>

text \<open>
  The retry loop \<^verbatim>\<open>for attempt in range(retry_count)\<close>. It ends by \<^verbatim>\<open>break\<close> or by running
  out of attempts (\<open>Completed\<close>, with the value of the variable \<^verbatim>\<open>ticker\<close>), by the
  \<^verbatim>\<open>return\<close> of its handler (\<open>Returned\<close>), or by an exception raised in the handler.
\<close>

type_synonym result = "bool \<times> string list \<times> string option"

datatype loop_exit = Completed "string option" | Returned result

definition py_range :: "int \<Rightarrow> nat list" where
  "py_range n = [0..<nat n]"

fun create_ticker ::
  "env \<Rightarrow> string \<Rightarrow> int \<Rightarrow> int \<Rightarrow> nat list \<Rightarrow> string option \<Rightarrow> world \<Rightarrow> (error + loop_exit) \<times> world"
where
  "create_ticker E ticker_symbol retry_count delay [] ticker w = (Inr (Completed ticker), w)"
| "create_ticker E ticker_symbol retry_count delay (attempt # rest) ticker w =
     (let w1 = emit (EvAttempt attempt) w in
      case attempts E attempt of
        Valid \<Rightarrow> (Inr (Completed (Some ticker_symbol)), w1)
      | outcome \<Rightarrow>
          (let ticker1 = (case outcome of CtorRaises e \<Rightarrow> ticker | _ \<Rightarrow> Some ticker_symbol) in
           if int attempt < retry_count - 1 then
             (case time_sleep delay w1 of
                (Inl e, w2) \<Rightarrow> (Inl e, w2)
              | (Inr _, w2) \<Rightarrow> create_ticker E ticker_symbol retry_count delay rest ticker1 w2)
           else (Inr (Returned (False, [], None)), w1)))"

text \<open>The fifteen category blocks, in the order of the source, and their file names.\<close>

definition categories :: "category list" where
  "categories =
     [CompanyInfo, Historical, IncomeStmt, BalanceSheet, CashFlow,
      QuarterlyIncome, QuarterlyBalance, QuarterlyCashflow,
      MajorHolders, Recommendations, Esg, News, Actions, Dividends, Splits]"

fun filename_of :: "category \<Rightarrow> string" where
  "filename_of CompanyInfo = ''company_info.csv''"
| "filename_of Historical = ''historical_data.csv''"
| "filename_of IncomeStmt = ''income_statement.csv''"
| "filename_of BalanceSheet = ''balance_sheet.csv''"
| "filename_of CashFlow = ''cash_flow.csv''"
| "filename_of QuarterlyIncome = ''quarterly_income_statement.csv''"
| "filename_of QuarterlyBalance = ''quarterly_balance_sheet.csv''"
| "filename_of QuarterlyCashflow = ''quarterly_cash_flow.csv''"
| "filename_of MajorHolders = ''major_holders.csv''"
| "filename_of Recommendations = ''recommendations.csv''"
| "filename_of Esg = ''esg_data.csv''"
| "filename_of News = ''news.csv''"
| "filename_of Actions = ''actions.csv''"
| "filename_of Dividends = ''dividends.csv''"
| "filename_of Splits = ''splits.csv''"

definition summary_filename :: string where
  "summary_filename = ''summary_report.txt''"

text \<open>The four shapes of the test that guards a save.\<close>

definition truthy_and_len :: "pyval \<Rightarrow> error + bool" where
  \<comment> \<open>\<^verbatim>\<open>x and len(x) > 0\<close>\<close>
  "truthy_and_len v =
     (case py_bool v of
        Inl e \<Rightarrow> Inl e
      | Inr False \<Rightarrow> Inr False
      | Inr True \<Rightarrow> (case py_len v of Inl e \<Rightarrow> Inl e | Inr n \<Rightarrow> Inr (n > 0)))"

definition not_empty :: "pyval \<Rightarrow> error + bool" where
  \<comment> \<open>\<^verbatim>\<open>not x.empty\<close>\<close>
  "not_empty v = (case py_empty v of Inl e \<Rightarrow> Inl e | Inr b \<Rightarrow> Inr (\<not> b))"

definition not_none_and_not_empty :: "pyval \<Rightarrow> error + bool" where
  \<comment> \<open>\<^verbatim>\<open>x is not None and not x.empty\<close>\<close>
  "not_none_and_not_empty v = (if v = PyNone then Inr False else not_empty v)"

definition not_none_and_len :: "pyval \<Rightarrow> error + bool" where
  \<comment> \<open>\<^verbatim>\<open>x is not None and len(x) > 0\<close>\<close>
  "not_none_and_len v =
     (if v = PyNone then Inr False
      else case py_len v of Inl e \<Rightarrow> Inl e | Inr n \<Rightarrow> Inr (n > 0))"

fun guard :: "category \<Rightarrow> pyval \<Rightarrow> error + bool" where
  "guard CompanyInfo v = truthy_and_len v"
| "guard Historical v = not_empty v"
| "guard IncomeStmt v = not_empty v"
| "guard BalanceSheet v = not_empty v"
| "guard CashFlow v = not_empty v"
| "guard QuarterlyIncome v = not_empty v"
| "guard QuarterlyBalance v = not_empty v"
| "guard QuarterlyCashflow v = not_empty v"
| "guard MajorHolders v = not_none_and_not_empty v"
| "guard Recommendations v = not_none_and_not_empty v"
| "guard Esg v = not_none_and_not_empty v"
| "guard News v = truthy_and_len v"
| "guard Actions v = not_none_and_not_empty v"
| "guard Dividends v = not_none_and_len v"
| "guard Splits v = not_none_and_len v"

text \<open>What is handed to \<^verbatim>\<open>save_data\<close>: the value itself, or a frame that pandas builds from it.\<close>

fun convert :: "env \<Rightarrow> category \<Rightarrow> pyval \<Rightarrow> error + pyval" where
  "convert E CompanyInfo v = (case from_dict E v of Inl e \<Rightarrow> Inl e | Inr d \<Rightarrow> Inr (PyFrame d))"
| "convert E News v = (case to_frame E v of Inl e \<Rightarrow> Inl e | Inr d \<Rightarrow> Inr (PyFrame d))"
| "convert E Dividends v = (case to_frame E v of Inl e \<Rightarrow> Inl e | Inr d \<Rightarrow> Inr (PyFrame d))"
| "convert E Splits v = (case to_frame E v of Inl e \<Rightarrow> Inl e | Inr d \<Rightarrow> Inr (PyFrame d))"
| "convert E _ v = Inr v"

record progress =
  successful_files :: nat
  generated_files :: "string list"
  wld :: world

text \<open>
  One category block: the \<^verbatim>\<open>try\<close> fetches the attribute, tests it, and saves; its handler
  only logs, so on every exception the block ends with the variables as they were.
\<close>

definition fetch_block :: "env \<Rightarrow> string \<Rightarrow> progress \<Rightarrow> category \<Rightarrow> progress" where
  "fetch_block E output_dir s c =
     (let s1 = s\<lparr>wld := emit (EvFetch c) (wld s)\<rparr> in
      case fetch E c of
        Inl e \<Rightarrow> s1
      | Inr v \<Rightarrow>
          (case guard c v of
             Inl e \<Rightarrow> s1
           | Inr False \<Rightarrow> s1
           | Inr True \<Rightarrow>
               (case convert E c v of
                  Inl e \<Rightarrow> s1
                | Inr data \<Rightarrow>
                    (case save_data E data (filename_of c) output_dir (wld s1) of
                       (True, w2) \<Rightarrow>
                         s1\<lparr>successful_files := successful_files s1 + 1,
                            generated_files := generated_files s1 @ [os_path_join output_dir (filename_of c)],
                            wld := w2\<rparr>
                     | (False, w2) \<Rightarrow> s1\<lparr>wld := w2\<rparr>))))"

definition fetch_all :: "env \<Rightarrow> string \<Rightarrow> world \<Rightarrow> progress" where
  "fetch_all E output_dir w =
     foldl (fetch_block E output_dir)
       \<lparr>successful_files = 0, generated_files = [], wld = w\<rparr> categories"

text \<open>The summary report, an f-string.\<close>

definition nl :: string where
  "nl = [CHR 0x0A]"

definition indent :: string where
  "indent = replicate 8 CHR '' ''"

definition summary_text :: "string \<Rightarrow> string \<Rightarrow> string \<Rightarrow> nat \<Rightarrow> string \<Rightarrow> string" where
  "summary_text date ticker_name ticker_symbol n output_dir =
     nl @ indent @ ''Stock Data Scraping Summary Report'' @
     nl @ indent @ ''==============================='' @
     nl @ indent @ ''Date: '' @ date @
     nl @ indent @ ''Company: '' @ ticker_name @
     nl @ indent @ ''Ticker: '' @ ticker_symbol @
     nl @ indent @ ''Files Generated: '' @ str_nat n @
     nl @
     nl @ indent @ ''Data Collected:'' @
     nl @ indent @ ''- Company Information'' @
     nl @ indent @ ''- Historical Market Data'' @
     nl @ indent @ ''- Financial Statements (Annual & Quarterly)'' @
     nl @ indent @ ''- Major Shareholders'' @
     nl @ indent @ ''- Analyst Recommendations'' @
     nl @ indent @ ''- ESG Data (if available)'' @
     nl @ indent @ ''- News Articles'' @
     nl @ indent @ ''- Dividends and Splits'' @
     nl @
     nl @ indent @ ''All data has been saved to the '' @ [CHR 0x27] @ output_dir @ [CHR 0x27] @ '' directory.'' @
     nl @ indent"

text \<open>The body of the outer \<^verbatim>\<open>try\<close>.\<close>

definition get_stock_data_try ::
  "env \<Rightarrow> string \<Rightarrow> string \<Rightarrow> int \<Rightarrow> int \<Rightarrow> world \<Rightarrow> (error + result) \<times> world"
where
  "get_stock_data_try E ticker_symbol ticker_name retry_count delay w =
     (case create_ticker E ticker_symbol retry_count delay (py_range retry_count) None w of
        (Inl e, w1) \<Rightarrow> (Inl e, w1)
      | (Inr (Returned r), w1) \<Rightarrow> (Inr r, w1)
      | (Inr (Completed ticker), w1) \<Rightarrow>
          if ticker = None then (Inr (False, [], None), w1)
          else
            (case create_output_directory E ticker_symbol w1 of
               (Inl e, w2) \<Rightarrow> (Inl e, w2)
             | (Inr output_dir, w2) \<Rightarrow>
                 (let s = fetch_all E output_dir w2;
                      summary = summary_text (now E) ticker_name ticker_symbol
                                  (successful_files s) output_dir;
                      (saved, w3) = save_data E (PyStr summary) summary_filename output_dir (wld s);
                      summary_report_path = os_path_join output_dir summary_filename
                  in (Inr (successful_files s > 0,
                           generated_files s @ [summary_report_path],
                           Some summary_report_path), w3))))"

definition get_stock_data ::
  "env \<Rightarrow> string \<Rightarrow> string \<Rightarrow> int \<Rightarrow> int \<Rightarrow> world \<Rightarrow> result \<times> world"
where
  "get_stock_data E ticker_symbol ticker_name retry_count delay w =
     (case get_stock_data_try E ticker_symbol ticker_name retry_count delay w of
        (Inl e, w1) \<Rightarrow> ((False, [], None), w1)
      | (Inr r, w1) \<Rightarrow> (r, w1))"

subsection \<open>\<^verbatim>\<open>get_indian_tickers\<close> and \<^verbatim>\<open>run_scraper\<close>\<close>

definition get_indian_tickers :: "string \<Rightarrow> string list" where
  "get_indian_tickers base_ticker =
     (let extensions = [''.NS''] in map (\<lambda>ext. base_ticker @ ext) extensions)"

definition resolve :: "string \<Rightarrow> string list" where
  \<comment> \<open>the first two statements of \<^verbatim>\<open>run_scraper\<close>\<close>
  "resolve ticker_name =
     (let base_ticker = replace_char CHR '' '' [] ticker_name in get_indian_tickers base_ticker)"

record run_state =
  results :: "(string \<times> bool) list"
  successful_tickers :: "string list"
  all_files :: "string list"
  summary_report_path :: "string option"
  rwld :: world

text \<open>\<^verbatim>\<open>if summary_path:\<close> is the truth value of a string or of None.\<close>

definition truthy_path :: "string option \<Rightarrow> bool" where
  "truthy_path p = (case p of None \<Rightarrow> False | Some s \<Rightarrow> s \<noteq> [])"

text \<open>
  The loop \<^verbatim>\<open>for ticker in tickers\<close>; \<open>W\<close> gives the collaborators' answers for each symbol.
  The sleep between two tickers is outside every handler, so what it raises leaves the loop.
\<close>

fun process_tickers ::
  "(string \<Rightarrow> env) \<Rightarrow> string \<Rightarrow> int \<Rightarrow> int \<Rightarrow> string list \<Rightarrow> string list \<Rightarrow> run_state \<Rightarrow> error + run_state"
where
  "process_tickers W ticker_name retry_count delay tickers [] s = Inr s"
| "process_tickers W ticker_name retry_count delay tickers (ticker # rest) s =
     (case get_stock_data (W ticker) ticker ticker_name retry_count delay (rwld s) of
        ((result, fs, summary_path), w1) \<Rightarrow>
          (let s1 = s\<lparr>results := (ticker, result) # filter (\<lambda>(k, _). k \<noteq> ticker) (results s),
                      rwld := w1\<rparr>;
               s2 = (if result then
                       s1\<lparr>successful_tickers := successful_tickers s1 @ [ticker],
                          all_files := all_files s1 @ fs,
                          summary_report_path :=
                            (if truthy_path summary_path then summary_path
                             else summary_report_path s1)\<rparr>
                     else s1)
           in if ticker \<noteq> last tickers then
                (case time_sleep delay (rwld s2) of
                   (Inl e, w2) \<Rightarrow> Inl e
                 | (Inr _, w2) \<Rightarrow>
                     process_tickers W ticker_name retry_count delay tickers rest (s2\<lparr>rwld := w2\<rparr>))
              else process_tickers W ticker_name retry_count delay tickers rest s2))"

text \<open>
  \<^verbatim>\<open>run_scraper\<close>: the loop over the candidates and the summary of all attempts
  (\<open>scrape_tickers\<close>), applied to the candidates that the resolution yields. The fourth
  component of the result, the text of the log, is left out.
\<close>

definition scrape_tickers ::
  "(string \<Rightarrow> env) \<Rightarrow> string \<Rightarrow> int \<Rightarrow> int \<Rightarrow> string list \<Rightarrow> world \<Rightarrow> error + result"
where
  "scrape_tickers W ticker_name retry_count delay tickers w =
     (case process_tickers W ticker_name retry_count delay tickers tickers
             \<lparr>results = [], successful_tickers = [], all_files = [],
              summary_report_path = None, rwld = w\<rparr> of
        Inl e \<Rightarrow> Inl e
      | Inr s \<Rightarrow>
          (let success_count = length (successful_tickers s) in
           if success_count = 0 then Inr (False, [], None)
           else Inr (True, all_files s, summary_report_path s)))"

definition run_scraper ::
  "(string \<Rightarrow> env) \<Rightarrow> string \<Rightarrow> int \<Rightarrow> int \<Rightarrow> world \<Rightarrow> error + result"
where
  "run_scraper W ticker_name retry_count delay w =
     (let tickers = resolve ticker_name in
      scrape_tickers W ticker_name retry_count delay tickers w)"

declare str_nat.simps [simp del]

section \<open>The vocabulary of the specification\<close>

text \<open>
  Emptiness of the data handed to \<^verbatim>\<open>save_data\<close>, in the words of the specification: None,
  an empty frame, a dict that pandas converts to an empty frame, or an object whose
  string form is empty after stripping white space.
\<close>

definition is_empty_data :: "env \<Rightarrow> pyval \<Rightarrow> bool" where
  "is_empty_data E data =
     (case data of
        PyNone \<Rightarrow> True
      | PyFrame d \<Rightarrow> nrows d = 0 \<or> ncols d = 0
      | PyDict kvs \<Rightarrow>
          (case from_dict E data of Inl e \<Rightarrow> False | Inr df \<Rightarrow> nrows df = 0 \<or> ncols df = 0)
      | _ \<Rightarrow> strip (py_str E data) = [])"

text \<open>
  An exception during the save: the conversion of a dict raises, or the write of the file
  does.
\<close>

definition raises_in_save :: "env \<Rightarrow> pyval \<Rightarrow> string \<Rightarrow> bool" where
  "raises_in_save E data filepath =
     ((case data of
         PyDict kvs \<Rightarrow> (case from_dict E data of Inl e \<Rightarrow> True | Inr df \<Rightarrow> False)
       | _ \<Rightarrow> False)
      \<or> write_outcome E filepath \<noteq> IoOk)"

text \<open>What \<^verbatim>\<open>save_data\<close> puts into the file.\<close>

definition rendered :: "env \<Rightarrow> pyval \<Rightarrow> content option" where
  "rendered E data =
     (case data of
        PyFrame d \<Rightarrow> Some (Csv d)
      | PyDict kvs \<Rightarrow> (case from_dict E data of Inl e \<Rightarrow> None | Inr df \<Rightarrow> Some (Csv df))
      | _ \<Rightarrow> Some (Text (py_str E data)))"

text \<open>
  What the block of a category hands to \<^verbatim>\<open>save_data\<close>, when it gets that far: the fetch and
  the test do not raise, the test holds and the conversion does not raise.
\<close>

definition handed_over :: "env \<Rightarrow> category \<Rightarrow> pyval option" where
  "handed_over E c =
     (case fetch E c of
        Inl e \<Rightarrow> None
      | Inr v \<Rightarrow>
          (case guard c v of
             Inl e \<Rightarrow> None
           | Inr False \<Rightarrow> None
           | Inr True \<Rightarrow> (case convert E c v of Inl e \<Rightarrow> None | Inr data \<Rightarrow> Some data)))"

text \<open>
  Reading a trace: the events that a call added, the names of the files whose save
  returned True, the categories fetched, the events of the retry loop, and the shape of a
  run of attempts with one sleep between each two.
\<close>

definition since :: "world \<Rightarrow> world \<Rightarrow> event list" where
  "since w w' = drop (length (trace w)) (trace w')"

definition saved_names :: "event list \<Rightarrow> string list" where
  "saved_names es =
     concat (map (\<lambda>e. case e of EvSaveData f b \<Rightarrow> if b then [f] else [] | _ \<Rightarrow> []) es)"

definition fetched :: "event list \<Rightarrow> category list" where
  "fetched es = concat (map (\<lambda>e. case e of EvFetch c \<Rightarrow> [c] | _ \<Rightarrow> []) es)"

definition is_retry_event :: "event \<Rightarrow> bool" where
  "is_retry_event e = (case e of EvAttempt i \<Rightarrow> True | EvSleep d \<Rightarrow> True | _ \<Rightarrow> False)"

fun attempt_events :: "int \<Rightarrow> nat list \<Rightarrow> event list" where
  "attempt_events delay [] = []"
| "attempt_events delay [i] = [EvAttempt i]"
| "attempt_events delay (i # j # rest) = EvAttempt i # EvSleep delay # attempt_events delay (j # rest)"

text \<open>
  The results of the calls of \<^verbatim>\<open>get_stock_data\<close> that the loop of \<^verbatim>\<open>run_scraper\<close> makes, one
  for each candidate and in their order, and the summary path of the last successful
  candidate that produced one.
\<close>

fun call_results ::
  "(string \<Rightarrow> env) \<Rightarrow> string \<Rightarrow> int \<Rightarrow> int \<Rightarrow> string list \<Rightarrow> string list \<Rightarrow> world \<Rightarrow> result list"
where
  "call_results W ticker_name retry_count delay tickers [] w = []"
| "call_results W ticker_name retry_count delay tickers (ticker # rest) w =
     (case get_stock_data (W ticker) ticker ticker_name retry_count delay w of
        (r, w1) \<Rightarrow>
          r # call_results W ticker_name retry_count delay tickers rest
                (if ticker \<noteq> last tickers then snd (time_sleep delay w1) else w1))"

definition succeeded :: "result list \<Rightarrow> result list" where
  "succeeded rs = filter (\<lambda>(ok, fs, p). ok) rs"

definition last_summary :: "string option \<Rightarrow> result list \<Rightarrow> string option" where
  "last_summary p0 rs =
     (case filter truthy_path (map (\<lambda>(ok, fs, p). p) (succeeded rs)) of
        [] \<Rightarrow> p0
      | ps \<Rightarrow> last ps)"

section \<open>Concrete runs\<close>

text \<open>A provider that answers at once and has nothing to report, and an empty file system.\<close>

definition quiet_env :: env where
  "quiet_env = \<lparr>attempts = (\<lambda>_. Valid), makedirs_error = (\<lambda>_. None),
     fetch = (\<lambda>_. Inr PyNone), write_outcome = (\<lambda>_. IoOk),
     from_dict = (\<lambda>_. Inl ValueError), to_frame = (\<lambda>_. Inl ValueError),
     repr = (\<lambda>_. ''obj''), now = ''2024-01-01 00:00:00''\<rparr>"

definition empty_world :: world where
  "empty_world = \<lparr>dirs = [], files = [], trace = []\<rparr>"

text \<open>
  A provider whose every fetch raises, on a disk that refuses every write; a disk that
  refuses the output directory; a provider that cannot be reached; a provider that has
  the price history and nothing else. Then the worlds of a run on \<^verbatim>\<open>TCS.NS\<close> after the
  first attempt and after the creation of the directory.
\<close>

definition failing_env :: env where
  "failing_env = quiet_env\<lparr>fetch := (\<lambda>_. Inl ProviderError), write_outcome := (\<lambda>_. OpenRaises)\<rparr>"

definition nodir_env :: env where
  "nodir_env = quiet_env\<lparr>makedirs_error := (\<lambda>_. Some OSError)\<rparr>"

definition offline_env :: env where
  "offline_env = quiet_env\<lparr>attempts := (\<lambda>_. CtorRaises ProviderError)\<rparr>"

definition rich_env :: env where
  "rich_env = quiet_env\<lparr>fetch := (\<lambda>c. if c = Historical then Inr (PyFrame (DataFrame 2 3 ''rows''))
                                     else Inl ProviderError)\<rparr>"

definition after_attempt :: world where
  "after_attempt = \<lparr>dirs = [], files = [], trace = [EvAttempt 0]\<rparr>"

definition after_makedirs :: world where
  "after_makedirs = \<lparr>dirs = [''stock_data_TCS_NS''], files = [],
     trace = [EvAttempt 0, EvMakedirs ''stock_data_TCS_NS'']\<rparr>"

section \<open>Properties\<close>

subsection \<open>Strings\<close>

lemma strip_eq_Nil: "strip s = [] \<longleftrightarrow> (\<forall>c\<in>set s. py_isspace c)"
proof
  assume a: "strip s = []"
  show "\<forall>c\<in>set s. py_isspace c"
  proof (rule ccontr)
    assume "\<not> (\<forall>c\<in>set s. py_isspace c)"
    then have ne: "dropWhile py_isspace s \<noteq> []"
      by (simp add: dropWhile_eq_Nil_conv)
    then have "\<not> py_isspace (hd (dropWhile py_isspace s))"
      by (rule hd_dropWhile)
    moreover have "hd (dropWhile py_isspace s) \<in> set (dropWhile py_isspace s)"
      using ne by simp
    moreover from a have "\<forall>x\<in>set (dropWhile py_isspace s). py_isspace x"
      by (simp add: strip_def dropWhile_eq_Nil_conv)
    ultimately show False by blast
  qed
next
  assume "\<forall>c\<in>set s. py_isspace c"
  then have h: "dropWhile py_isspace s = []"
    by (simp add: dropWhile_eq_Nil_conv)
  show "strip s = []"
    unfolding strip_def h by simp
qed

lemma replace_char_map: "replace_char old [new] s = map (\<lambda>c. if c = old then new else c) s"
  by (induction s) (auto simp: replace_char_def)

lemma replace_char_filter: "replace_char old [] s = filter (\<lambda>c. c \<noteq> old) s"
  by (induction s) (auto simp: replace_char_def)

subsection \<open>The output directory\<close>

text \<open>
  C9: \<^verbatim>\<open>create_output_directory\<close> returns \<^verbatim>\<open>stock_data_\<close> followed by the ticker symbol with
  every dot replaced by an underscore, a name that depends on the symbol alone. When
  something exists at that name, nothing is created and the world is unchanged;
  otherwise \<^verbatim>\<open>os.makedirs\<close> is called once on that name, and the directory exists
  afterwards unless the call raises.
\<close>

theorem create_output_directory_name:
  "(let d = output_dir_name tsym; (r, w') = create_output_directory E tsym w in
     d = ''stock_data_'' @ map (\<lambda>c. if c = CHR ''.'' then CHR ''_'' else c) tsym \<and>
     (os_path_exists w d \<longrightarrow> r = Inr d \<and> w' = w) \<and>
     (\<not> os_path_exists w d \<longrightarrow>
        trace w' = trace w @ [EvMakedirs d] \<and> files w' = files w \<and>
        (case makedirs_error E d of
           None \<Rightarrow> r = Inr d \<and> dirs w' = dirs w @ [d]
         | Some e \<Rightarrow> r = Inl e \<and> dirs w' = dirs w)))"
  by (auto simp: Let_def create_output_directory_def os_makedirs_def emit_def output_dir_name_def
      replace_char_map split: option.splits prod.splits sum.splits)

theorem create_output_directory_name_witness:
  "create_output_directory quiet_env ''TCS.NS'' empty_world =
     (Inr ''stock_data_TCS_NS'',
      \<lparr>dirs = [''stock_data_TCS_NS''], files = [], trace = [EvMakedirs ''stock_data_TCS_NS'']\<rparr>)"
  using create_output_directory_name [of "''TCS.NS''" quiet_env empty_world]
  by (simp add: Let_def quiet_env_def empty_world_def os_path_exists_def split: prod.splits)

subsection \<open>Resolving a company name\<close>

text \<open>
  C6: the resolution removes every space from the company name and yields a non-empty
  list of candidate symbols; \<^verbatim>\<open>get_indian_tickers\<close> returns the one-element list of its
  argument followed by \<^verbatim>\<open>.NS\<close>.
\<close>

theorem resolve_tickers:
  "get_indian_tickers base = [base @ ''.NS''] \<and>
   resolve name = [filter (\<lambda>c. c \<noteq> CHR '' '') name @ ''.NS''] \<and>
   resolve name \<noteq> [] \<and> length (resolve name) \<ge> 1"
  by (simp add: get_indian_tickers_def resolve_def replace_char_filter)


theorem resolve_tickers_witness:
  "resolve ''TATA MOTORS'' = [''TATAMOTORS.NS''] \<and> get_indian_tickers ''TCS'' = [''TCS.NS'']"
  using resolve_tickers [of "''TCS''" "''TATA MOTORS''"] by simp

subsection \<open>Saving\<close>

lemma write_file_result:
  "write_file E p c w =
     (if write_outcome E p = IoOk then (Inr (), store p c w)
      else if write_outcome E p = OpenRaises then (Inl OSError, w)
      else (Inl OSError, store p (Text []) w))"
  by (simp add: write_file_def split: io_outcome.splits)

lemma store_fields [simp]:
  "dirs (store p c w) = dirs w" "trace (store p c w) = trace w"
  "files (store p c w) = (p, c) # filter (\<lambda>(q, _). q \<noteq> p) (files w)"
  by (simp_all add: store_def)

lemma emit_fields [simp]:
  "dirs (emit e w) = dirs w" "files (emit e w) = files w" "trace (emit e w) = trace w @ [e]"
  by (simp_all add: emit_def)

lemma save_data_try_fields:
  "dirs (snd (save_data_try E data p w)) = dirs w \<and> trace (snd (save_data_try E data p w)) = trace w"
  by (cases data) (simp_all add: save_data_try_def write_file_result Let_def split: sum.splits)

lemma save_data_trace:
  "save_data E data filename output_dir w = (b, w') \<Longrightarrow>
     trace w' = trace w @ [EvSaveData filename b] \<and> dirs w' = dirs w"
  using save_data_try_fields [of E data "os_path_join output_dir filename" w]
  by (auto simp: save_data_def Let_def split: if_splits sum.splits prod.splits)

text \<open>
  C2: \<^verbatim>\<open>save_data\<close> returns True, having written the file, exactly when the data is not
  empty and nothing raises during the save; on empty data it returns False and the files
  and directories are as before.
\<close>

theorem save_data_iff:
  "(let filepath = os_path_join output_dir filename;
        (b, w') = save_data E data filename output_dir w in
      (b \<longleftrightarrow> \<not> is_empty_data E data \<and> \<not> raises_in_save E data filepath) \<and>
      (b \<longrightarrow> rendered E data \<noteq> None \<and>
             files w' = (filepath, the (rendered E data)) # filter (\<lambda>(q, _). q \<noteq> filepath) (files w)) \<and>
      (is_empty_data E data \<longrightarrow> \<not> b \<and> files w' = files w) \<and>
      dirs w' = dirs w)"
  by (cases data)
     (simp_all add: save_data_def save_data_try_def write_file_result Let_def
        is_empty_data_def raises_in_save_def rendered_def
      split: sum.splits)

theorem save_data_iff_witness:
  "fst (save_data quiet_env (PyStr ''ok'') ''a.txt'' ''out'' empty_world) \<and>
   files (snd (save_data quiet_env (PyStr ''ok'') ''a.txt'' ''out'' empty_world)) =
     [(''out/a.txt'', Text ''ok'')] \<and>
   \<not> fst (save_data quiet_env (PyStr '' '') ''a.txt'' ''out'' empty_world) \<and>
   files (snd (save_data quiet_env (PyStr '' '') ''a.txt'' ''out'' empty_world)) = []"
proof -
  have e1: "\<not> is_empty_data quiet_env (PyStr ''ok'')"
    by (simp add: is_empty_data_def py_str_def strip_eq_Nil py_isspace_def)
  have e2: "is_empty_data quiet_env (PyStr '' '')"
    by (simp add: is_empty_data_def py_str_def strip_eq_Nil py_isspace_def)
  have r: "\<not> raises_in_save quiet_env (PyStr ''ok'') (os_path_join ''out'' ''a.txt'')"
    by (simp add: raises_in_save_def quiet_env_def)
  have c: "rendered quiet_env (PyStr ''ok'') = Some (Text ''ok'')"
    by (simp add: rendered_def py_str_def)
  have p: "os_path_join ''out'' ''a.txt'' = ''out/a.txt''"
    by (simp add: os_path_join_def)
  show ?thesis
    using save_data_iff [of "''out''" "''a.txt''" quiet_env "PyStr ''ok''" empty_world]
      save_data_iff [of "''out''" "''a.txt''" quiet_env "PyStr '' ''" empty_world]
      e1 e2 r c
    by (simp add: Let_def case_prod_beta p empty_world_def)
qed


subsection \<open>Traces\<close>

lemma saved_names_simps [simp]:
  "saved_names [] = []"
  "saved_names (xs @ ys) = saved_names xs @ saved_names ys"
  "saved_names (EvSaveData f b # es) = (if b then [f] else []) @ saved_names es"
  "saved_names (EvFetch c # es) = saved_names es"
  "saved_names (EvMakedirs p # es) = saved_names es"
  by (simp_all add: saved_names_def)

lemma fetched_simps [simp]:
  "fetched [] = []"
  "fetched (xs @ ys) = fetched xs @ fetched ys"
  "fetched (EvSaveData f b # es) = fetched es"
  "fetched (EvFetch c # es) = c # fetched es"
  "fetched (EvMakedirs p # es) = fetched es"
  "fetched (EvAttempt i # es) = fetched es"
  "fetched (EvSleep dl # es) = fetched es"
  by (simp_all add: fetched_def)

lemma is_retry_event_simps [simp]:
  "is_retry_event (EvAttempt i)" "is_retry_event (EvSleep dl)"
  "\<not> is_retry_event (EvMakedirs p)" "\<not> is_retry_event (EvFetch c)"
  "\<not> is_retry_event (EvSaveData f b)"
  by (simp_all add: is_retry_event_def)

lemma since_append [simp]: "trace w' = trace w @ es \<Longrightarrow> since w w' = es"
  by (simp add: since_def)

subsection \<open>The category blocks\<close>

lemma fetch_block_effect:
  "\<exists>es. trace (wld (fetch_block E d s c)) = trace (wld s) @ EvFetch c # es \<and>
        fetched es = [] \<and> filter is_retry_event es = [] \<and>
        (saved_names es = [] \<or> saved_names es = [filename_of c]) \<and>
        successful_files (fetch_block E d s c) = successful_files s + length (saved_names es) \<and>
        generated_files (fetch_block E d s c) =
          generated_files s @ map (os_path_join d) (saved_names es) \<and>
        dirs (wld (fetch_block E d s c)) = dirs (wld s)"
proof (cases "\<exists>v data. fetch E c = Inr v \<and> guard c v = Inr True \<and> convert E c v = Inr data")
  case False
  then have "fetch_block E d s c = s\<lparr>wld := emit (EvFetch c) (wld s)\<rparr>"
    by (auto simp: fetch_block_def Let_def split: sum.splits bool.splits)
  then show ?thesis by simp
next
  case True
  then obtain v data where h: "fetch E c = Inr v" "guard c v = Inr True" "convert E c v = Inr data"
    by blast
  obtain b w2 where sv: "save_data E data (filename_of c) d (emit (EvFetch c) (wld s)) = (b, w2)"
    by (cases "save_data E data (filename_of c) d (emit (EvFetch c) (wld s))")
  from save_data_trace [OF sv]
  have t: "trace w2 = trace (wld s) @ EvFetch c # [EvSaveData (filename_of c) b]" "dirs w2 = dirs (wld s)"
    by simp_all
  show ?thesis
  proof (cases b)
    case True
    with h sv have "fetch_block E d s c =
        s\<lparr>wld := w2, successful_files := successful_files s + 1,
          generated_files := generated_files s @ [os_path_join d (filename_of c)]\<rparr>"
      by (simp add: fetch_block_def Let_def)
    with t True show ?thesis by simp
  next
    case False
    with h sv have "fetch_block E d s c = s\<lparr>wld := w2\<rparr>"
      by (simp add: fetch_block_def Let_def)
    with t False show ?thesis by simp
  qed
qed

lemma fetch_blocks_effect:
  "\<exists>es. trace (wld (foldl (fetch_block E d) s cs)) = trace (wld s) @ es \<and>
        fetched es = cs \<and> filter is_retry_event es = [] \<and>
        subseq (saved_names es) (map filename_of cs) \<and>
        successful_files (foldl (fetch_block E d) s cs) = successful_files s + length (saved_names es) \<and>
        generated_files (foldl (fetch_block E d) s cs) =
          generated_files s @ map (os_path_join d) (saved_names es) \<and>
        dirs (wld (foldl (fetch_block E d) s cs)) = dirs (wld s)"
proof (induction cs arbitrary: s)
  case Nil
  show ?case by simp
next
  case (Cons c cs)
  obtain e1 where a: "trace (wld (fetch_block E d s c)) = trace (wld s) @ EvFetch c # e1"
    "fetched e1 = []" "filter is_retry_event e1 = []"
    "saved_names e1 = [] \<or> saved_names e1 = [filename_of c]"
    "successful_files (fetch_block E d s c) = successful_files s + length (saved_names e1)"
    "generated_files (fetch_block E d s c) = generated_files s @ map (os_path_join d) (saved_names e1)"
    "dirs (wld (fetch_block E d s c)) = dirs (wld s)"
    using fetch_block_effect [of E d s c] by blast
  obtain e2 where b: "trace (wld (foldl (fetch_block E d) (fetch_block E d s c) cs)) =
        trace (wld (fetch_block E d s c)) @ e2"
    "fetched e2 = cs" "filter is_retry_event e2 = []"
    "subseq (saved_names e2) (map filename_of cs)"
    "successful_files (foldl (fetch_block E d) (fetch_block E d s c) cs) =
       successful_files (fetch_block E d s c) + length (saved_names e2)"
    "generated_files (foldl (fetch_block E d) (fetch_block E d s c) cs) =
       generated_files (fetch_block E d s c) @ map (os_path_join d) (saved_names e2)"
    "dirs (wld (foldl (fetch_block E d) (fetch_block E d s c) cs)) = dirs (wld (fetch_block E d s c))"
    using Cons.IH [of "fetch_block E d s c"] by blast
  have sub: "subseq (saved_names e1 @ saved_names e2) (filename_of c # map filename_of cs)"
    using a(4) b(4) by auto
  show ?case
    apply (rule exI [of _ "EvFetch c # e1 @ e2"])
    using a b sub by simp
qed

subsection \<open>The retry loop\<close>

lemma attempt_events_Cons:
  "xs \<noteq> [] \<Longrightarrow> attempt_events delay (i # xs) = EvAttempt i # EvSleep delay # attempt_events delay xs"
  by (cases xs) simp_all

lemma create_ticker_upt:
  "i < n \<Longrightarrow> n = nat rc \<Longrightarrow>
   \<exists>k r w'. create_ticker E tsym rc delay [i..<n] ticker w = (r, w') \<and> i < k \<and> k \<le> n \<and>
      trace w' = trace w @ attempt_events delay [i..<k] \<and> dirs w' = dirs w \<and> files w' = files w \<and>
      (\<forall>j. i \<le> j \<and> j < k - 1 \<longrightarrow> attempts E j \<noteq> Valid) \<and>
      (if attempts E (k - 1) = Valid then r = Inr (Completed (Some tsym))
       else if k = n then r = Inr (Returned (False, [], None))
       else r = Inl ValueError \<and> delay < 0)"
proof (induction "n - i" arbitrary: i ticker w)
  case 0
  then show ?case by simp
next
  case (Suc m)
  have up: "[i..<n] = i # [Suc i..<n]"
    using Suc.prems by (simp add: upt_conv_Cons)
  show ?case
  proof (cases "attempts E i = Valid")
    case True
    then have "create_ticker E tsym rc delay [i..<n] ticker w =
        (Inr (Completed (Some tsym)), emit (EvAttempt i) w)"
      by (simp add: up Let_def)
    then show ?thesis
      using True Suc.prems by (intro exI [of _ "Suc i"]) auto
  next
    case False
    show ?thesis
    proof (cases "Suc i < n")
      case last: False
      then have n: "n = Suc i" using Suc.prems by simp
      then have "\<not> int i < rc - 1" using Suc.prems by simp
      then have "create_ticker E tsym rc delay [i..<n] ticker w =
          (Inr (Returned (False, [], None)), emit (EvAttempt i) w)"
        using False by (simp add: up Let_def split: attempt_outcome.splits)
      then show ?thesis
        using False n by (intro exI [of _ "Suc i"]) auto
    next
      case more: True
      then have lt: "int i < rc - 1" using Suc.prems by simp
      show ?thesis
      proof (cases "delay < 0")
        case True
        then have "create_ticker E tsym rc delay [i..<n] ticker w =
            (Inl ValueError, emit (EvAttempt i) w)"
          using False lt by (simp add: up Let_def time_sleep_def split: attempt_outcome.splits)
        then show ?thesis
          using False more True by (intro exI [of _ "Suc i"]) auto
      next
        case nonneg: False
        define t1 where "t1 = (case attempts E i of CtorRaises e \<Rightarrow> ticker | _ \<Rightarrow> Some tsym)"
        define w2 where "w2 = emit (EvSleep delay) (emit (EvAttempt i) w)"
        have step: "create_ticker E tsym rc delay [i..<n] ticker w =
            create_ticker E tsym rc delay [Suc i..<n] t1 w2"
          using False lt nonneg
          by (simp add: up Let_def time_sleep_def t1_def w2_def split: attempt_outcome.splits)
        have m: "m = n - Suc i" using Suc.hyps(2) by simp
        from Suc.hyps(1) [OF m more Suc.prems(2), of t1 w2]
        obtain k r w' where ih:
          "create_ticker E tsym rc delay [Suc i..<n] t1 w2 = (r, w')" "Suc i < k" "k \<le> n"
          "trace w' = trace w2 @ attempt_events delay [Suc i..<k]"
          "dirs w' = dirs w2" "files w' = files w2"
          "\<forall>j. Suc i \<le> j \<and> j < k - 1 \<longrightarrow> attempts E j \<noteq> Valid"
          "if attempts E (k - 1) = Valid then r = Inr (Completed (Some tsym))
           else if k = n then r = Inr (Returned (False, [], None))
           else r = Inl ValueError \<and> delay < 0"
          by blast
        have ev: "attempt_events delay [i..<k] =
            EvAttempt i # EvSleep delay # attempt_events delay [Suc i..<k]"
          using ih(2) by (simp add: upt_conv_Cons attempt_events_Cons)
        have fails: "\<forall>j. i \<le> j \<and> j < k - 1 \<longrightarrow> attempts E j \<noteq> Valid"
          using ih(7) False by (metis le_antisym not_less_eq_eq)
        show ?thesis
          apply (rule exI [of _ k], rule exI [of _ r], rule exI [of _ w'])
          using step ih fails ev by (simp add: w2_def)
      qed
    qed
  qed
qed


subsection \<open>The shape of a call\<close>

lemma attempt_events_retry [simp]:
  "filter is_retry_event (attempt_events delay xs) = attempt_events delay xs"
  "fetched (attempt_events delay xs) = []"
  "saved_names (attempt_events delay xs) = []"
  by (induction delay xs rule: attempt_events.induct) (simp_all add: saved_names_def)

lemma create_ticker_returned:
  "create_ticker E tsym rc delay xs ticker w = (Inr (Returned r), w') \<Longrightarrow> r = (False, [], None)"
proof (induction xs arbitrary: ticker w)
  case Nil
  then show ?case by simp
next
  case (Cons a xs)
  then show ?case
    by (auto simp: Let_def time_sleep_def split: attempt_outcome.splits if_splits)
qed

lemma create_output_directory_effect:
  "create_output_directory E tsym w = (r, w') \<Longrightarrow>
   \<exists>es. trace w' = trace w @ es \<and> fetched es = [] \<and> filter is_retry_event es = [] \<and>
        saved_names es = [] \<and> files w' = files w \<and>
        (r = Inr (output_dir_name tsym) \<or>
         (\<exists>e. r = Inl e \<and> makedirs_error E (output_dir_name tsym) = Some e))"
  by (auto simp: create_output_directory_def os_makedirs_def Let_def
      split: if_splits option.splits)

lemma success_path:
  assumes loop: "create_ticker E tsym rc delay (py_range rc) None w = (Inr (Completed (Some t)), w1)"
    and mk: "create_output_directory E tsym w1 = (Inr d, w2)"
  shows "\<exists>es b w3.
      get_stock_data_try E tsym name rc delay w =
        (Inr (0 < successful_files (fetch_all E d w2),
              generated_files (fetch_all E d w2) @ [os_path_join d summary_filename],
              Some (os_path_join d summary_filename)), w3) \<and>
      save_data E (PyStr (summary_text (now E) name tsym (successful_files (fetch_all E d w2)) d))
        summary_filename d (wld (fetch_all E d w2)) = (b, w3) \<and>
      trace (wld (fetch_all E d w2)) = trace w2 @ es \<and>
      trace w3 = trace w2 @ es @ [EvSaveData summary_filename b] \<and>
      fetched es = categories \<and> filter is_retry_event es = [] \<and>
      subseq (saved_names es) (map filename_of categories) \<and>
      successful_files (fetch_all E d w2) = length (saved_names es) \<and>
      generated_files (fetch_all E d w2) = map (os_path_join d) (saved_names es)"
proof -
  let ?s = "fetch_all E d w2"
  obtain es where es: "trace (wld ?s) = trace w2 @ es" "fetched es = categories"
    "filter is_retry_event es = []" "subseq (saved_names es) (map filename_of categories)"
    "successful_files ?s = length (saved_names es)"
    "generated_files ?s = map (os_path_join d) (saved_names es)"
    using fetch_blocks_effect [of E d "\<lparr>successful_files = 0, generated_files = [], wld = w2\<rparr>" categories]
    by (auto simp: fetch_all_def)
  obtain b w3 where sv:
    "save_data E (PyStr (summary_text (now E) name tsym (successful_files ?s) d))
       summary_filename d (wld ?s) = (b, w3)"
    by (cases "save_data E (PyStr (summary_text (now E) name tsym (successful_files ?s) d))
       summary_filename d (wld ?s)")
  have tr: "trace w3 = trace w2 @ es @ [EvSaveData summary_filename b]"
    using save_data_trace [OF sv] es(1) by simp
  have "get_stock_data_try E tsym name rc delay w =
        (Inr (0 < successful_files ?s,
              generated_files ?s @ [os_path_join d summary_filename],
              Some (os_path_join d summary_filename)), w3)"
    using loop mk sv by (simp add: get_stock_data_try_def Let_def)
  with sv tr es show ?thesis by blast
qed

lemma get_stock_data_cases:
  assumes "get_stock_data E tsym name rc delay w = (r, w')"
  obtains (failed) w1 where "r = (False, [], None)"
      "trace w' = trace w1" "files w' = files w1" "dirs w' = dirs w1"
      "\<exists>x t. create_ticker E tsym rc delay (py_range rc) None w = (x, w1) \<and> x \<noteq> Inr (Completed (Some t))"
  | (nodir) t w1 e where "r = (False, [], None)"
      "create_ticker E tsym rc delay (py_range rc) None w = (Inr (Completed (Some t)), w1)"
      "create_output_directory E tsym w1 = (Inl e, w')"
  | (complete) t w1 w2 where
      "create_ticker E tsym rc delay (py_range rc) None w = (Inr (Completed (Some t)), w1)"
      "create_output_directory E tsym w1 = (Inr (output_dir_name tsym), w2)"
proof -
  obtain x w1 where loop: "create_ticker E tsym rc delay (py_range rc) None w = (x, w1)"
    by (cases "create_ticker E tsym rc delay (py_range rc) None w")
  show ?thesis
  proof (cases "\<exists>t. x = Inr (Completed (Some t))")
    case False
    with loop assms create_ticker_returned [of E tsym rc delay "py_range rc" None w _ w1]
    have "r = (False, [], None) \<and> w' = w1"
      by (auto simp: get_stock_data_def get_stock_data_try_def split: sum.splits loop_exit.splits)
    with False loop show ?thesis using failed [of w1] by auto
  next
    case True
    then obtain t where x: "x = Inr (Completed (Some t))" by blast
    obtain y w2 where mk: "create_output_directory E tsym w1 = (y, w2)"
      by (cases "create_output_directory E tsym w1")
    show ?thesis
    proof (cases y)
      case (Inl e)
      with loop x mk assms have "r = (False, [], None) \<and> w' = w2"
        by (auto simp: get_stock_data_def get_stock_data_try_def)
      with loop x mk Inl show ?thesis using nodir by blast
    next
      case (Inr d)
      with create_output_directory_effect [OF mk] have "d = output_dir_name tsym" by auto
      with loop x mk Inr show ?thesis using complete by blast
    qed
  qed
qed


lemma subseq_subset: "subseq xs ys \<Longrightarrow> set xs \<subseteq> set ys"
  by (induction rule: list_emb.induct) auto

lemma subseq_keeps_distinct: "subseq xs ys \<Longrightarrow> distinct ys \<Longrightarrow> distinct xs"
  using subseqs_distinctD [of xs ys] by simp

lemma filenames_no_slash: "f \<in> set (map filename_of categories @ [summary_filename]) \<Longrightarrow> f \<noteq> [] \<and> hd f \<noteq> CHR ''/''"
  by (auto simp: categories_def summary_filename_def)

lemma os_path_join_inject:
  "hd f \<noteq> CHR ''/'' \<Longrightarrow> hd g \<noteq> CHR ''/'' \<Longrightarrow> os_path_join d f = os_path_join d g \<Longrightarrow> f = g"
  by (auto simp: os_path_join_def split: if_splits)

subsection \<open>The run after the Ticker object exists\<close>


text \<open>
  C4, amended: whenever the Ticker object is created and \<^verbatim>\<open>create_output_directory\<close> does
  not raise, \<^verbatim>\<open>get_stock_data\<close> builds the summary text, calls \<^verbatim>\<open>save_data\<close> on it with the
  file name \<^verbatim>\<open>summary_report.txt\<close>, appends the path of the report to the file list and
  returns that path as third component, whatever the number of files saved and whatever
  the save of the summary returns.
\<close>

theorem summary_always_reported:
  assumes "create_ticker E tsym rc delay (py_range rc) None w = (Inr (Completed (Some t)), w1)"
    and "create_output_directory E tsym w1 = (Inr d, w2)"
  shows "\<exists>b w'. 
     save_data E (PyStr (summary_text (now E) name tsym (successful_files (fetch_all E d w2)) d))
        summary_filename d (wld (fetch_all E d w2)) = (b, w') \<and>
     get_stock_data E tsym name rc delay w =
       ((0 < successful_files (fetch_all E d w2),
         generated_files (fetch_all E d w2) @ [os_path_join d summary_filename],
         Some (os_path_join d summary_filename)), w') \<and>
     last (trace w') = EvSaveData summary_filename b \<and> d = output_dir_name tsym"
proof -
  obtain es b w3 where sp:
    "get_stock_data_try E tsym name rc delay w =
        (Inr (0 < successful_files (fetch_all E d w2),
              generated_files (fetch_all E d w2) @ [os_path_join d summary_filename],
              Some (os_path_join d summary_filename)), w3)"
    "save_data E (PyStr (summary_text (now E) name tsym (successful_files (fetch_all E d w2)) d))
        summary_filename d (wld (fetch_all E d w2)) = (b, w3)"
    "trace w3 = trace w2 @ es @ [EvSaveData summary_filename b]"
    using success_path [OF assms, of name] by blast
  have d: "d = output_dir_name tsym"
    using create_output_directory_effect [OF assms(2)] by auto
  from sp(1) have "get_stock_data E tsym name rc delay w =
       ((0 < successful_files (fetch_all E d w2),
         generated_files (fetch_all E d w2) @ [os_path_join d summary_filename],
         Some (os_path_join d summary_filename)), w3)"
    by (simp add: get_stock_data_def)
  moreover have "last (trace w3) = EvSaveData summary_filename b"
    using sp(3) by simp
  ultimately show ?thesis using sp(2) d by blast
qed

text \<open>
  C10: on the return at the end of \<^verbatim>\<open>get_stock_data\<close>, the file list has
  \<^verbatim>\<open>successful_files + 1\<close> elements, its last element is the path of the summary report,
  the elements before it are, in order, the paths of the saves of categories that
  returned True (one element for each), and the flag is True exactly when
  \<^verbatim>\<open>successful_files\<close> is at least one.
\<close>

theorem file_list_invariant:
  assumes "create_ticker E tsym rc delay (py_range rc) None w = (Inr (Completed (Some t)), w1)"
    and "create_output_directory E tsym w1 = (Inr d, w2)"
    and "get_stock_data E tsym name rc delay w = ((ok, fs, sp), w')"
  shows "length fs = successful_files (fetch_all E d w2) + 1 \<and>
         last fs = os_path_join d summary_filename \<and>
         sp = Some (os_path_join d summary_filename) \<and>
         butlast fs = map (os_path_join d) (saved_names (since w2 (wld (fetch_all E d w2)))) \<and>
         successful_files (fetch_all E d w2) = length (saved_names (since w2 (wld (fetch_all E d w2)))) \<and>
         (ok \<longleftrightarrow> 1 \<le> successful_files (fetch_all E d w2))"
proof -
  let ?s = "fetch_all E d w2"
  obtain es b w3 where sp:
    "get_stock_data_try E tsym name rc delay w =
        (Inr (0 < successful_files ?s,
              generated_files ?s @ [os_path_join d summary_filename],
              Some (os_path_join d summary_filename)), w3)"
    "trace (wld ?s) = trace w2 @ es"
    "successful_files ?s = length (saved_names es)"
    "generated_files ?s = map (os_path_join d) (saved_names es)"
    using success_path [OF assms(1,2), of name] by blast
  have si: "since w2 (wld ?s) = es"
    using sp(2) by (rule since_append)
  from sp(1) assms(3) have r: "ok = (0 < successful_files ?s)"
    "fs = generated_files ?s @ [os_path_join d summary_filename]"
    "sp = Some (os_path_join d summary_filename)"
    by (auto simp: get_stock_data_def)
  have okiff: "ok \<longleftrightarrow> 1 \<le> successful_files ?s"
    using r(1) by (simp add: Suc_le_eq)
  have "length fs = successful_files ?s + 1"
    using r(2) sp(3,4) by simp
  moreover have "butlast fs = map (os_path_join d) (saved_names (since w2 (wld ?s)))"
    using r(2) sp(4) si by simp
  moreover have "last fs = os_path_join d summary_filename"
    using r(2) by simp
  ultimately show ?thesis
    using r(3) sp(3) si okiff by blast
qed

lemma create_ticker_raises:
  "create_ticker E tsym rc delay xs ticker w = (Inl e, w') \<Longrightarrow> e = ValueError \<and> delay < 0"
proof (induction xs arbitrary: ticker w)
  case Nil
  then show ?case by simp
next
  case (Cons a xs)
  then show ?case
    by (auto simp: Let_def time_sleep_def split: attempt_outcome.splits if_splits)
qed

subsection \<open>The outer handler\<close>

text \<open>
  C8: \<^verbatim>\<open>get_stock_data\<close> always returns a triple. An exception leaves the body of the outer
  \<^verbatim>\<open>try\<close> only from the sleep of the retry loop or from the creation of the output
  directory, never from a category block, and the outer handler turns it into
  \<^verbatim>\<open>(False, [], None)\<close>; otherwise the result of the body is returned.
\<close>

theorem outer_handler:
  "(case get_stock_data_try E tsym name rc delay w of
      (Inl e, w1) \<Rightarrow>
        get_stock_data E tsym name rc delay w = ((False, [], None), w1) \<and>
        (e = ValueError \<and> delay < 0 \<or> makedirs_error E (output_dir_name tsym) = Some e)
    | (Inr r, w1) \<Rightarrow> get_stock_data E tsym name rc delay w = (r, w1))"
proof -
  obtain x w1 where t: "get_stock_data_try E tsym name rc delay w = (x, w1)"
    by (cases "get_stock_data_try E tsym name rc delay w")
  show ?thesis
  proof (cases x)
    case (Inr r)
    with t show ?thesis by (simp add: get_stock_data_def)
  next
    case (Inl e)
    obtain y v1 where loop: "create_ticker E tsym rc delay (py_range rc) None w = (y, v1)"
      by (cases "create_ticker E tsym rc delay (py_range rc) None w")
    have "e = ValueError \<and> delay < 0 \<or> makedirs_error E (output_dir_name tsym) = Some e"
    proof (cases y)
      case yl: (Inl e')
      with loop t Inl have "e' = e" by (simp add: get_stock_data_try_def)
      with create_ticker_raises loop yl show ?thesis by blast
    next
      case yr: (Inr ex)
      with loop t Inl obtain tk z v2 where
        mk: "create_output_directory E tsym v1 = (z, v2)" and ex: "ex = Completed (Some tk)"
        by (cases "create_output_directory E tsym v1")
          (auto simp: get_stock_data_try_def split: loop_exit.splits if_splits)
      show ?thesis
      proof (cases z)
        case zl: (Inl e')
        with loop yr ex mk t Inl have "e' = e" by (simp add: get_stock_data_try_def)
        with create_output_directory_effect [OF mk] zl show ?thesis by auto
      next
        case zr: (Inr d)
        with success_path [of E tsym rc delay w tk v1 d v2 name] loop yr ex mk t Inl
        show ?thesis by auto
      qed
    qed
    with t Inl show ?thesis by (simp add: get_stock_data_def)
  qed
qed

subsection \<open>File names\<close>

lemma filenames_distinct: "distinct (map filename_of categories @ [summary_filename])"
  by (simp add: categories_def summary_filename_def)

subsection \<open>What the files hold\<close>

lemma map_of_store:
  "map_of (files (store p c w)) q = (if q = p then Some c else map_of (files w) q)"
proof -
  have "map_of (filter (\<lambda>(k, _). k \<noteq> p) xs) q = (if q = p then None else map_of xs q)" for xs :: "(string \<times> content) list"
    by (induction xs) auto
  then show ?thesis by simp
qed

lemma save_data_files_aux:
  "(\<forall>q. q \<noteq> os_path_join d fn \<longrightarrow>
       map_of (files (snd (save_data E data fn d w))) q = map_of (files w) q) \<and>
   (fst (save_data E data fn d w) \<longrightarrow>
       rendered E data \<noteq> None \<and>
       map_of (files (snd (save_data E data fn d w))) (os_path_join d fn) = rendered E data)"
  by (cases data)
     (simp_all add: save_data_def save_data_try_def write_file_result Let_def rendered_def
        map_of_store del: store_fields split: sum.splits)

lemma save_data_files:
  "save_data E data fn d w = (b, w') \<Longrightarrow>
     (\<forall>q. q \<noteq> os_path_join d fn \<longrightarrow> map_of (files w') q = map_of (files w) q) \<and>
     (b \<longrightarrow> rendered E data \<noteq> None \<and> map_of (files w') (os_path_join d fn) = rendered E data)"
  using save_data_files_aux [of d fn E data w] by simp

lemma fetch_block_files:
  "(\<forall>q. q \<noteq> os_path_join d (filename_of c) \<longrightarrow>
        map_of (files (wld (fetch_block E d s c))) q = map_of (files (wld s)) q) \<and>
   (generated_files (fetch_block E d s c) = generated_files s \<or>
    generated_files (fetch_block E d s c) = generated_files s @ [os_path_join d (filename_of c)] \<and>
    (\<exists>data. handed_over E c = Some data \<and> rendered E data \<noteq> None \<and>
       map_of (files (wld (fetch_block E d s c))) (os_path_join d (filename_of c)) = rendered E data))"
proof (cases "handed_over E c")
  case None
  then have "fetch_block E d s c = s\<lparr>wld := emit (EvFetch c) (wld s)\<rparr>"
    by (auto simp: fetch_block_def handed_over_def Let_def split: sum.splits bool.splits)
  then show ?thesis by simp
next
  case (Some data)
  then obtain v where h: "fetch E c = Inr v" "guard c v = Inr True" "convert E c v = Inr data"
    by (auto simp: handed_over_def split: sum.splits bool.splits)
  obtain b w2 where sv: "save_data E data (filename_of c) d (emit (EvFetch c) (wld s)) = (b, w2)"
    by (cases "save_data E data (filename_of c) d (emit (EvFetch c) (wld s))")
  note f = save_data_files [OF sv]
  show ?thesis
  proof (cases b)
    case True
    with h sv have "fetch_block E d s c =
        s\<lparr>wld := w2, successful_files := successful_files s + 1,
          generated_files := generated_files s @ [os_path_join d (filename_of c)]\<rparr>"
      by (simp add: fetch_block_def Let_def)
    with f True Some show ?thesis by simp
  next
    case False
    with h sv have "fetch_block E d s c = s\<lparr>wld := w2\<rparr>"
      by (simp add: fetch_block_def Let_def)
    with f show ?thesis by simp
  qed
qed

lemma fetch_blocks_files:
  "distinct (map (\<lambda>c. os_path_join d (filename_of c)) cs) \<Longrightarrow>
   \<exists>new. generated_files (foldl (fetch_block E d) s cs) = generated_files s @ new \<and>
     set new \<subseteq> (\<lambda>c. os_path_join d (filename_of c)) ` set cs \<and>
     (\<forall>q. q \<notin> (\<lambda>c. os_path_join d (filename_of c)) ` set cs \<longrightarrow>
        map_of (files (wld (foldl (fetch_block E d) s cs))) q = map_of (files (wld s)) q) \<and>
     (\<forall>c\<in>set cs. os_path_join d (filename_of c) \<in> set new \<longrightarrow>
        (\<exists>data. handed_over E c = Some data \<and> rendered E data \<noteq> None \<and>
           map_of (files (wld (foldl (fetch_block E d) s cs))) (os_path_join d (filename_of c)) =
             rendered E data))"
proof (induction cs arbitrary: s)
  case Nil
  show ?case by simp
next
  case (Cons c cs)
  let ?P = "\<lambda>c. os_path_join d (filename_of c)"
  let ?s1 = "fetch_block E d s c"
  let ?s' = "foldl (fetch_block E d) ?s1 cs"
  have dc: "distinct (map ?P cs)" and notin: "?P c \<notin> ?P ` set cs"
    using Cons.prems by auto
  obtain new where ih:
    "generated_files ?s' = generated_files ?s1 @ new"
    "set new \<subseteq> ?P ` set cs"
    "\<forall>q. q \<notin> ?P ` set cs \<longrightarrow> map_of (files (wld ?s')) q = map_of (files (wld ?s1)) q"
    "\<forall>c\<in>set cs. ?P c \<in> set new \<longrightarrow>
        (\<exists>data. handed_over E c = Some data \<and> rendered E data \<noteq> None \<and>
           map_of (files (wld ?s')) (?P c) = rendered E data)"
    using Cons.IH [OF dc, of ?s1] by blast
  note blk = fetch_block_files [of d c E s]
  define n1 where "n1 = drop (length (generated_files s)) (generated_files ?s1)"
  have n1: "generated_files ?s1 = generated_files s @ n1" "n1 = [] \<or> n1 = [?P c]"
    using blk by (auto simp: n1_def)
  have saved: "\<exists>data. handed_over E c = Some data \<and> rendered E data \<noteq> None \<and>
       map_of (files (wld ?s1)) (?P c) = rendered E data" if "n1 = [?P c]"
    using blk that n1(1) by auto
  have keep: "map_of (files (wld ?s')) (?P c) = map_of (files (wld ?s1)) (?P c)"
    using ih(3) notin by blast
  have g: "generated_files (foldl (fetch_block E d) s (c # cs)) = generated_files s @ (n1 @ new)"
    using ih(1) n1(1) by simp
  have sub: "set (n1 @ new) \<subseteq> ?P ` set (c # cs)"
    using ih(2) n1(2) by auto
  have other: "\<forall>q. q \<notin> ?P ` set (c # cs) \<longrightarrow>
      map_of (files (wld (foldl (fetch_block E d) s (c # cs)))) q = map_of (files (wld s)) q"
    using ih(3) blk by simp
  have each: "\<forall>x\<in>set (c # cs). ?P x \<in> set (n1 @ new) \<longrightarrow>
        (\<exists>data. handed_over E x = Some data \<and> rendered E data \<noteq> None \<and>
           map_of (files (wld (foldl (fetch_block E d) s (c # cs)))) (?P x) = rendered E data)"
  proof (intro ballI impI)
    fix x assume x: "x \<in> set (c # cs)" and m: "?P x \<in> set (n1 @ new)"
    show "\<exists>data. handed_over E x = Some data \<and> rendered E data \<noteq> None \<and>
           map_of (files (wld (foldl (fetch_block E d) s (c # cs)))) (?P x) = rendered E data"
    proof (cases "?P x = ?P c")
      case True
      with m ih(2) notin n1(2) have n: "n1 = [?P c]" by auto
      have "x = c"
      proof (rule ccontr)
        assume "x \<noteq> c"
        with x have "x \<in> set cs" by simp
        then have "?P x \<in> ?P ` set cs" by (rule imageI)
        with True notin show False by simp
      qed
      with saved [OF n] keep show ?thesis by simp
    next
      case False
      with x have xin: "x \<in> set cs" by auto
      from False m n1(2) have "?P x \<in> set new" by auto
      with ih(4) xin show ?thesis by simp
    qed
  qed
  show ?case
    using g sub other each by blast
qed

lemma paths_distinct:
  "distinct (map (os_path_join d) (map filename_of categories @ [summary_filename]))"
proof -
  have "inj_on (os_path_join d) (set (map filename_of categories @ [summary_filename]))"
  proof (rule inj_onI)
    fix f g
    assume "f \<in> set (map filename_of categories @ [summary_filename])"
      "g \<in> set (map filename_of categories @ [summary_filename])"
      "os_path_join d f = os_path_join d g"
    with filenames_no_slash [of f] filenames_no_slash [of g] os_path_join_inject [of f g d]
    show "f = g" by blast
  qed
  with filenames_distinct show ?thesis
    by (simp only: distinct_map)
qed

lemma category_paths:
  "distinct (map (\<lambda>c. os_path_join d (filename_of c)) categories)"
  "c \<in> set categories \<Longrightarrow> os_path_join d (filename_of c) \<noteq> os_path_join d summary_filename"
proof -
  have d: "distinct (map (os_path_join d) (map filename_of categories) @ [os_path_join d summary_filename])"
    using paths_distinct [of d] by simp
  then show "distinct (map (\<lambda>c. os_path_join d (filename_of c)) categories)"
    by (simp add: comp_def)
  show "os_path_join d (filename_of c) \<noteq> os_path_join d summary_filename" if "c \<in> set categories"
  proof -
    have "os_path_join d (filename_of c) \<in> (\<lambda>x. os_path_join d (filename_of x)) ` set categories"
      using that by (rule imageI)
    with d show ?thesis by auto
  qed
qed

lemma saved_categories_written:
  assumes "get_stock_data E tsym name rc delay w = ((ok, fs, sp), w')"
  shows "\<forall>c\<in>set categories.
           os_path_join (output_dir_name tsym) (filename_of c) \<in> set fs \<longrightarrow>
           (\<exists>data. handed_over E c = Some data \<and> rendered E data \<noteq> None \<and>
              map_of (files w') (os_path_join (output_dir_name tsym) (filename_of c)) =
                rendered E data)"
  using assms
proof (cases rule: get_stock_data_cases)
  case (failed w1)
  then show ?thesis by simp
next
  case (nodir t w1 e)
  then show ?thesis by simp
next
  case (complete t w1 w2)
  let ?d = "output_dir_name tsym"
  let ?P = "\<lambda>c. os_path_join ?d (filename_of c)"
  let ?s = "fetch_all E ?d w2"
  obtain es b w3 where sp:
    "get_stock_data_try E tsym name rc delay w =
      (Inr (0 < successful_files ?s,
            generated_files ?s @ [os_path_join ?d summary_filename],
            Some (os_path_join ?d summary_filename)), w3)"
    "save_data E (PyStr (summary_text (now E) name tsym (successful_files ?s) ?d))
        summary_filename ?d (wld ?s) = (b, w3)"
    using success_path [OF complete, of name] by blast
  from sp(1) assms have r: "fs = generated_files ?s @ [os_path_join ?d summary_filename]" "w' = w3"
    by (simp_all add: get_stock_data_def)
  obtain new where n: "generated_files ?s = new"
    "\<forall>c\<in>set categories. ?P c \<in> set new \<longrightarrow>
        (\<exists>data. handed_over E c = Some data \<and> rendered E data \<noteq> None \<and>
           map_of (files (wld ?s)) (?P c) = rendered E data)"
    using fetch_blocks_files [OF category_paths(1) [of ?d], where E = E
        and s = "\<lparr>successful_files = 0, generated_files = [], wld = w2\<rparr>"]
    by (auto simp: fetch_all_def)
  have keep: "\<forall>q. q \<noteq> os_path_join ?d summary_filename \<longrightarrow>
      map_of (files w3) q = map_of (files (wld ?s)) q"
    using save_data_files [OF sp(2)] by blast
  show ?thesis
  proof (intro ballI impI)
    fix c assume c: "c \<in> set categories" and m: "?P c \<in> set fs"
    have ne: "?P c \<noteq> os_path_join ?d summary_filename"
      using category_paths(2) [OF c] .
    with m r(1) n(1) have "?P c \<in> set new" by simp
    with n(2) c obtain data where "handed_over E c = Some data" "rendered E data \<noteq> None"
      "map_of (files (wld ?s)) (?P c) = rendered E data"
      by blast
    with keep ne r(2) show "\<exists>data. handed_over E c = Some data \<and> rendered E data \<noteq> None \<and>
        map_of (files w') (?P c) = rendered E data"
      by simp
  qed
qed

text \<open>
  C7: the sixteen file names are pairwise distinct; every path of the returned file list
  is the output directory joined with one of them, and no path occurs twice; and the path
  of each category in the list names a file of its own, which at the return holds what the
  block of that category handed to \<^verbatim>\<open>save_data\<close>.
\<close>

theorem one_file_per_category:
  assumes "get_stock_data E tsym name rc delay w = ((ok, fs, sp), w')"
  shows "distinct (map filename_of categories @ [summary_filename]) \<and>
         map filename_of categories @ [summary_filename] =
           [''company_info.csv'', ''historical_data.csv'', ''income_statement.csv'',
            ''balance_sheet.csv'', ''cash_flow.csv'', ''quarterly_income_statement.csv'',
            ''quarterly_balance_sheet.csv'', ''quarterly_cash_flow.csv'', ''major_holders.csv'',
            ''recommendations.csv'', ''esg_data.csv'', ''news.csv'', ''actions.csv'',
            ''dividends.csv'', ''splits.csv'', ''summary_report.txt''] \<and>
         (\<forall>p\<in>set fs. \<exists>f\<in>set (map filename_of categories @ [summary_filename]).
             p = os_path_join (output_dir_name tsym) f) \<and>
         distinct fs \<and>
         (\<forall>c\<in>set categories.
             os_path_join (output_dir_name tsym) (filename_of c) \<in> set fs \<longrightarrow>
             (\<exists>data. handed_over E c = Some data \<and> rendered E data \<noteq> None \<and>
                map_of (files w') (os_path_join (output_dir_name tsym) (filename_of c)) =
                  rendered E data))"
proof -
  let ?names = "map filename_of categories @ [summary_filename]"
  let ?d = "output_dir_name tsym"
  have names: "?names =
           [''company_info.csv'', ''historical_data.csv'', ''income_statement.csv'',
            ''balance_sheet.csv'', ''cash_flow.csv'', ''quarterly_income_statement.csv'',
            ''quarterly_balance_sheet.csv'', ''quarterly_cash_flow.csv'', ''major_holders.csv'',
            ''recommendations.csv'', ''esg_data.csv'', ''news.csv'', ''actions.csv'',
            ''dividends.csv'', ''splits.csv'', ''summary_report.txt'']"
    by (simp add: categories_def summary_filename_def)
  have "\<exists>saved. subseq saved ?names \<and> fs = map (os_path_join ?d) saved"
    using assms
  proof (cases rule: get_stock_data_cases)
    case (failed w1)
    then have "fs = []" by simp
    then show ?thesis by (intro exI [of _ "[]"]) simp
  next
    case (nodir t w1 e)
    then have "fs = []" by simp
    then show ?thesis by (intro exI [of _ "[]"]) simp
  next
    case (complete t w1 w2)
    obtain es b w3 where sp:
      "get_stock_data_try E tsym name rc delay w =
        (Inr (0 < successful_files (fetch_all E ?d w2),
              generated_files (fetch_all E ?d w2) @ [os_path_join ?d summary_filename],
              Some (os_path_join ?d summary_filename)), w3)"
      "subseq (saved_names es) (map filename_of categories)"
      "generated_files (fetch_all E ?d w2) = map (os_path_join ?d) (saved_names es)"
      using success_path [OF complete, of name] by blast
    from sp(1) assms have "fs = generated_files (fetch_all E ?d w2) @ [os_path_join ?d summary_filename]"
      by (simp add: get_stock_data_def)
    with sp(3) have "fs = map (os_path_join ?d) (saved_names es @ [summary_filename])" by simp
    moreover have "subseq (saved_names es @ [summary_filename]) ?names"
      using sp(2) by (simp add: list_emb_append_mono)
    ultimately show ?thesis by blast
  qed
  then obtain saved where sv: "subseq saved ?names" "fs = map (os_path_join ?d) saved" by blast
  have sub: "set saved \<subseteq> set ?names" using sv(1) by (rule subseq_subset)
  have ds: "distinct saved" using sv(1) filenames_distinct by (rule subseq_keeps_distinct)
  have inj: "inj_on (os_path_join ?d) (set saved)"
  proof (rule inj_onI)
    fix f g assume "f \<in> set saved" "g \<in> set saved" "os_path_join ?d f = os_path_join ?d g"
    with sub filenames_no_slash [of f] filenames_no_slash [of g] os_path_join_inject [of f g ?d]
    show "f = g" by blast
  qed
  have "distinct fs" using ds inj sv(2) by (simp add: distinct_map)
  moreover have "\<forall>p\<in>set fs. \<exists>f\<in>set ?names. p = os_path_join ?d f"
    using sv(2) sub by auto
  ultimately show ?thesis
    using filenames_distinct names saved_categories_written [OF assms] by blast
qed

subsection \<open>Bounded retries\<close>

text \<open>
  C1: for a retry count of at least one, \<^verbatim>\<open>get_stock_data\<close> makes \<open>k\<close> attempts, numbered
  from 0, with \<open>1 \<le> k \<le> retry_count\<close>; one sleep of the given delay lies between each two
  consecutive attempts and none follows the last; every attempt before the last one
  failed, and nothing is attempted after the first success. When the last attempt fails
  too, all \<open>retry_count\<close> attempts were made (unless the delay is negative, where the
  sleep raises), the result is \<^verbatim>\<open>(False, [], None)\<close>, no category is fetched and no file or
  directory is touched.
\<close>

theorem bounded_retries:
  assumes "1 \<le> rc" and "get_stock_data E tsym name rc delay w = (r, w')"
  shows "\<exists>k rest. 1 \<le> k \<and> k \<le> nat rc \<and>
           since w w' = attempt_events delay [0..<k] @ rest \<and>
           filter is_retry_event rest = [] \<and>
           (\<forall>j<k - 1. attempts E j \<noteq> Valid) \<and>
           (attempts E (k - 1) \<noteq> Valid \<longrightarrow>
              (k = nat rc \<or> delay < 0) \<and> rest = [] \<and> r = (False, [], None) \<and>
              files w' = files w \<and> dirs w' = dirs w)"
proof -
  have n: "0 < nat rc" using assms(1) by simp
  obtain k x w1 where L:
    "create_ticker E tsym rc delay (py_range rc) None w = (x, w1)" "0 < k" "k \<le> nat rc"
    "trace w1 = trace w @ attempt_events delay [0..<k]" "dirs w1 = dirs w" "files w1 = files w"
    "\<forall>j. 0 \<le> j \<and> j < k - 1 \<longrightarrow> attempts E j \<noteq> Valid"
    "if attempts E (k - 1) = Valid then x = Inr (Completed (Some tsym))
     else if k = nat rc then x = Inr (Returned (False, [], None))
     else x = Inl ValueError \<and> delay < 0"
    using create_ticker_upt [OF n refl, of E tsym delay None w] unfolding py_range_def by blast
  have "\<exists>rest. trace w' = trace w1 @ rest \<and> filter is_retry_event rest = [] \<and>
          (attempts E (k - 1) \<noteq> Valid \<longrightarrow> rest = [] \<and> r = (False, [], None) \<and>
              files w' = files w1 \<and> dirs w' = dirs w1)"
  proof (cases "attempts E (k - 1) = Valid")
    case False
    with L(8) have "x = Inr (Returned (False, [], None)) \<or> x = Inl ValueError" by (auto split: if_splits)
    with L(1) assms(2) have "r = (False, [], None) \<and> w' = w1"
      by (auto simp: get_stock_data_def get_stock_data_try_def)
    then show ?thesis by simp
  next
    case True
    with L(8) have x: "x = Inr (Completed (Some tsym))" by simp
    obtain y w2 where mk: "create_output_directory E tsym w1 = (y, w2)"
      by (cases "create_output_directory E tsym w1")
    obtain e1 where e1: "trace w2 = trace w1 @ e1" "filter is_retry_event e1 = []"
      using create_output_directory_effect [OF mk] by blast
    show ?thesis
    proof (cases y)
      case (Inl e)
      with L(1) x mk assms(2) have "w' = w2"
        by (auto simp: get_stock_data_def get_stock_data_try_def)
      with e1 True show ?thesis by auto
    next
      case (Inr d)
      obtain es b w3 where sp:
        "get_stock_data_try E tsym name rc delay w =
          (Inr (0 < successful_files (fetch_all E d w2),
                generated_files (fetch_all E d w2) @ [os_path_join d summary_filename],
                Some (os_path_join d summary_filename)), w3)"
        "trace w3 = trace w2 @ es @ [EvSaveData summary_filename b]"
        "filter is_retry_event es = []"
        using success_path [of E tsym rc delay w tsym w1 d w2 name] L(1) x mk Inr by blast
      from sp(1) assms(2) have "w' = w3" by (simp add: get_stock_data_def)
      with sp(2,3) e1 have "trace w' = trace w1 @ (e1 @ es @ [EvSaveData summary_filename b]) \<and>
          filter is_retry_event (e1 @ es @ [EvSaveData summary_filename b]) = []"
        by simp
      with True show ?thesis by blast
    qed
  qed
  then obtain rest where R: "trace w' = trace w1 @ rest" "filter is_retry_event rest = []"
    "attempts E (k - 1) \<noteq> Valid \<longrightarrow> rest = [] \<and> r = (False, [], None) \<and>
              files w' = files w1 \<and> dirs w' = dirs w1"
    by blast
  have "since w w' = attempt_events delay [0..<k] @ rest"
    using R(1) L(4) by (intro since_append) simp
  moreover have "attempts E (k - 1) \<noteq> Valid \<longrightarrow> k = nat rc \<or> delay < 0"
    using L(8) by (auto split: if_splits)
  ultimately show ?thesis
    using L(2,3,5,6,7) R(2,3) by (intro exI [of _ k] exI [of _ rest]) auto
qed

subsection \<open>The loop over the candidates\<close>

lemma last_summary_Cons:
  "last_summary p0 ((ok, fs, p) # rs) = last_summary (if ok \<and> truthy_path p then p else p0) rs"
  by (simp add: last_summary_def succeeded_def split: list.splits)

lemma process_tickers_collect:
  "process_tickers W name rc delay tickers rest s = Inr s' \<Longrightarrow>
     length (successful_tickers s') =
       length (successful_tickers s) + length (succeeded (call_results W name rc delay tickers rest (rwld s))) \<and>
     all_files s' =
       all_files s @ concat (map (\<lambda>(ok, fs, p). fs) (succeeded (call_results W name rc delay tickers rest (rwld s)))) \<and>
     summary_report_path s' =
       last_summary (summary_report_path s) (call_results W name rc delay tickers rest (rwld s))"
proof (induction rest arbitrary: s)
  case Nil
  then show ?case by (simp add: succeeded_def last_summary_def)
next
  case (Cons t rest)
  obtain ok fs p w1 where g: "get_stock_data (W t) t name rc delay (rwld s) = ((ok, fs, p), w1)"
    by (metis prod.exhaust)
  define s1 where "s1 = s\<lparr>results := (t, ok) # filter (\<lambda>(k, _). k \<noteq> t) (results s), rwld := w1\<rparr>"
  define s2 where "s2 = (if ok then
        s1\<lparr>successful_tickers := successful_tickers s1 @ [t],
           all_files := all_files s1 @ fs,
           summary_report_path := (if truthy_path p then p else summary_report_path s1)\<rparr>
      else s1)"
  define w2 where "w2 = (if t \<noteq> last tickers then snd (time_sleep delay w1) else w1)"
  have s2f: "rwld s2 = w1"
    "length (successful_tickers s2) = length (successful_tickers s) + (if ok then 1 else 0)"
    "all_files s2 = all_files s @ (if ok then fs else [])"
    "summary_report_path s2 = (if ok \<and> truthy_path p then p else summary_report_path s)"
    by (simp_all add: s2_def s1_def)
  have step: "process_tickers W name rc delay tickers rest (s2\<lparr>rwld := w2\<rparr>) = Inr s'"
  proof (cases "t \<noteq> last tickers")
    case True
    with Cons.prems g show ?thesis
      by (cases "time_sleep delay w1")
        (auto simp: Let_def s1_def s2_def w2_def s2f split: sum.splits if_splits)
  next
    case False
    with Cons.prems g have "process_tickers W name rc delay tickers rest s2 = Inr s'"
      by (auto simp: Let_def s1_def s2_def split: if_splits)
    moreover have "s2\<lparr>rwld := w2\<rparr> = s2" using False s2f(1) by (simp add: w2_def)
    ultimately show ?thesis by simp
  qed
  have cr: "call_results W name rc delay tickers (t # rest) (rwld s) =
      (ok, fs, p) # call_results W name rc delay tickers rest w2"
    using g by (simp add: w2_def)
  from Cons.IH [OF step] show ?case
    unfolding cr by (simp add: s2f succeeded_def last_summary_Cons)
qed

text \<open>
  C5: \<^verbatim>\<open>run_scraper\<close> returns False with an empty file list and no summary path exactly
  when \<^verbatim>\<open>get_stock_data\<close> returned False for every candidate; otherwise it returns True
  with the concatenation of the file lists of the successful candidates, in their order,
  and the summary path of the last successful candidate that produced one. The
  candidates of \<^verbatim>\<open>run_scraper\<close> are the single symbol of the resolution, so that the sleep
  between two candidates is never reached and \<^verbatim>\<open>run_scraper\<close> always returns.
\<close>

theorem run_scraper_result:
  "(scrape_tickers W name rc delay tickers w = Inr (ok, fs, sp) \<longrightarrow>
      ((ok, fs, sp) = (False, [], None) \<longleftrightarrow>
         (\<forall>r\<in>set (call_results W name rc delay tickers tickers w). \<not> fst r)) \<and>
      (ok \<longleftrightarrow> (\<exists>r\<in>set (call_results W name rc delay tickers tickers w). fst r)) \<and>
      fs = concat (map (\<lambda>(ok, fs, p). fs) (succeeded (call_results W name rc delay tickers tickers w))) \<and>
      sp = last_summary None (call_results W name rc delay tickers tickers w)) \<and>
   run_scraper W name rc delay w =
     scrape_tickers W name rc delay [filter (\<lambda>c. c \<noteq> CHR '' '') name @ ''.NS''] w \<and>
   (\<exists>r. run_scraper W name rc delay w = Inr r)"
proof -
  let ?rs = "call_results W name rc delay tickers tickers w"
  let ?init = "\<lparr>results = [], successful_tickers = [], all_files = [],
              summary_report_path = None, rwld = w\<rparr>"
  have none: "succeeded ?rs = [] \<longleftrightarrow> (\<forall>r\<in>set ?rs. \<not> fst r)"
    by (auto simp: succeeded_def filter_empty_conv)
  have part1: "((ok, fs, sp) = (False, [], None) \<longleftrightarrow> (\<forall>r\<in>set ?rs. \<not> fst r)) \<and>
      (ok \<longleftrightarrow> (\<exists>r\<in>set ?rs. fst r)) \<and>
      fs = concat (map (\<lambda>(ok, fs, p). fs) (succeeded ?rs)) \<and>
      sp = last_summary None ?rs"
    if a: "scrape_tickers W name rc delay tickers w = Inr (ok, fs, sp)"
  proof -
    from a obtain s' where p: "process_tickers W name rc delay tickers tickers ?init = Inr s'"
      by (auto simp: scrape_tickers_def split: sum.splits)
    from process_tickers_collect [OF p]
    have c: "length (successful_tickers s') = length (succeeded ?rs)"
      "all_files s' = concat (map (\<lambda>(ok, fs, p). fs) (succeeded ?rs))"
      "summary_report_path s' = last_summary None ?rs"
      by simp_all
    show ?thesis
    proof (cases "succeeded ?rs = []")
      case True
      with a p c have "(ok, fs, sp) = (False, [], None)"
        by (simp add: scrape_tickers_def)
      moreover have "last_summary None ?rs = None"
        using True by (simp add: last_summary_def)
      ultimately show ?thesis using True none by auto
    next
      case False
      with a p c have "ok" "fs = all_files s'" "sp = summary_report_path s'"
        by (simp_all add: scrape_tickers_def)
      with c False none show ?thesis by auto
    qed
  qed
  have run: "run_scraper W name rc delay w =
     scrape_tickers W name rc delay [filter (\<lambda>c. c \<noteq> CHR '' '') name @ ''.NS''] w"
    by (simp add: run_scraper_def resolve_def get_indian_tickers_def replace_char_filter)
  have "\<exists>r. scrape_tickers W name rc delay [t] w = Inr r" for t
    by (auto simp: scrape_tickers_def Let_def split: prod.splits)
  with run have "\<exists>r. run_scraper W name rc delay w = Inr r" by simp
  with part1 run show ?thesis by blast
qed


section \<open>The concrete runs, evaluated\<close>

lemma py_range_3: "py_range 3 = [0, 1, 2]"
  by (simp add: py_range_def upt_conv_Cons)

lemma failing_loop:
  "create_ticker failing_env ''TCS.NS'' 3 2 (py_range 3) None empty_world =
     (Inr (Completed (Some ''TCS.NS'')), after_attempt)"
  by (simp add: py_range_3 failing_env_def quiet_env_def empty_world_def after_attempt_def emit_def)

lemma failing_dir:
  "create_output_directory failing_env ''TCS.NS'' after_attempt = (Inr ''stock_data_TCS_NS'', after_makedirs)"
  by (simp add: create_output_directory_def output_dir_name_def replace_char_def os_path_exists_def
      os_makedirs_def emit_def Let_def failing_env_def quiet_env_def after_attempt_def after_makedirs_def)

lemma failing_fetch:
  "successful_files (fetch_all failing_env ''stock_data_TCS_NS'' after_makedirs) = 0"
  "generated_files (fetch_all failing_env ''stock_data_TCS_NS'' after_makedirs) = []"
  by (simp_all add: fetch_all_def categories_def fetch_block_def Let_def failing_env_def quiet_env_def)

lemma summary_not_blank: "strip (summary_text a b c n d) \<noteq> []"
proof -
  have "CHR ''S'' \<in> set (summary_text a b c n d)"
    by (simp add: summary_text_def)
  moreover have "\<not> py_isspace CHR ''S''"
    by (simp add: py_isspace_def)
  ultimately show ?thesis
    using strip_eq_Nil by blast
qed

lemma failing_summary:
  "fst (save_data failing_env (PyStr (summary_text a b c n d)) f dr w) = False"
  by (simp add: save_data_def save_data_try_def Let_def py_str_def summary_not_blank
      write_file_result failing_env_def quiet_env_def split: prod.splits)

lemma rich_fetch:
  "successful_files (fetch_all rich_env ''stock_data_TCS_NS'' after_makedirs) = 1"
  "saved_names (since after_makedirs (wld (fetch_all rich_env ''stock_data_TCS_NS'' after_makedirs)))
     = [''historical_data.csv'']"
  by (simp_all add: fetch_all_def categories_def fetch_block_def Let_def rich_env_def quiet_env_def
      not_empty_def save_data_def save_data_try_def write_file_result os_path_join_def
      after_makedirs_def since_def)

lemma rich_loop:
  "create_ticker rich_env ''TCS.NS'' 3 2 (py_range 3) None empty_world =
     (Inr (Completed (Some ''TCS.NS'')), after_attempt)"
  by (simp add: py_range_3 rich_env_def quiet_env_def empty_world_def after_attempt_def emit_def)

lemma rich_dir:
  "create_output_directory rich_env ''TCS.NS'' after_attempt = (Inr ''stock_data_TCS_NS'', after_makedirs)"
  by (simp add: create_output_directory_def output_dir_name_def replace_char_def os_path_exists_def
      os_makedirs_def emit_def Let_def rich_env_def quiet_env_def after_attempt_def after_makedirs_def)

lemma summary_path: "os_path_join ''stock_data_TCS_NS'' summary_filename = ''stock_data_TCS_NS/summary_report.txt''"
  by (simp add: os_path_join_def summary_filename_def)

lemma historical_path:
  "os_path_join ''stock_data_TCS_NS'' ''historical_data.csv'' = ''stock_data_TCS_NS/historical_data.csv''"
  by (simp add: os_path_join_def)


theorem summary_always_reported_witness:
  "create_ticker failing_env ''TCS.NS'' 3 2 (py_range 3) None empty_world =
     (Inr (Completed (Some ''TCS.NS'')), after_attempt) \<and>
   create_output_directory failing_env ''TCS.NS'' after_attempt =
     (Inr ''stock_data_TCS_NS'', after_makedirs) \<and>
   fst (get_stock_data failing_env ''TCS.NS'' ''TCS'' 3 2 empty_world) =
     (False, [''stock_data_TCS_NS/summary_report.txt''], Some ''stock_data_TCS_NS/summary_report.txt'') \<and>
   last (trace (snd (get_stock_data failing_env ''TCS.NS'' ''TCS'' 3 2 empty_world))) =
     EvSaveData ''summary_report.txt'' False"
proof -
  obtain b w' where h:
    "save_data failing_env
       (PyStr (summary_text (now failing_env) ''TCS'' ''TCS.NS''
          (successful_files (fetch_all failing_env ''stock_data_TCS_NS'' after_makedirs))
          ''stock_data_TCS_NS''))
       summary_filename ''stock_data_TCS_NS''
       (wld (fetch_all failing_env ''stock_data_TCS_NS'' after_makedirs)) = (b, w')"
    "get_stock_data failing_env ''TCS.NS'' ''TCS'' 3 2 empty_world =
       ((0 < successful_files (fetch_all failing_env ''stock_data_TCS_NS'' after_makedirs),
         generated_files (fetch_all failing_env ''stock_data_TCS_NS'' after_makedirs) @
           [os_path_join ''stock_data_TCS_NS'' summary_filename],
         Some (os_path_join ''stock_data_TCS_NS'' summary_filename)), w')"
    "last (trace w') = EvSaveData summary_filename b"
    using summary_always_reported [OF failing_loop failing_dir, of "''TCS''"] by blast
  have "b = False"
    using h(1) failing_summary [of "now failing_env" "''TCS''" "''TCS.NS''"
        "successful_files (fetch_all failing_env ''stock_data_TCS_NS'' after_makedirs)"
        "''stock_data_TCS_NS''" summary_filename "''stock_data_TCS_NS''"
        "wld (fetch_all failing_env ''stock_data_TCS_NS'' after_makedirs)"]
    by simp
  then show ?thesis
    using h(2,3) failing_loop failing_dir failing_fetch
    by (simp add: summary_path) (simp add: summary_filename_def)
qed

theorem summary_always_reported_counterexample:
  "fst (create_ticker nodir_env ''TCS.NS'' 3 2 (py_range 3) None empty_world) =
     Inr (Completed (Some ''TCS.NS'')) \<and>
   get_stock_data nodir_env ''TCS.NS'' ''TCS'' 3 2 empty_world =
     ((False, [], None),
      \<lparr>dirs = [], files = [], trace = [EvAttempt 0, EvMakedirs ''stock_data_TCS_NS'']\<rparr>)"
  by (simp add: get_stock_data_def get_stock_data_try_def py_range_3 create_output_directory_def
      output_dir_name_def replace_char_def os_path_exists_def os_makedirs_def emit_def Let_def
      nodir_env_def quiet_env_def empty_world_def)

theorem file_list_invariant_witness:
  "create_ticker rich_env ''TCS.NS'' 3 2 (py_range 3) None empty_world =
     (Inr (Completed (Some ''TCS.NS'')), after_attempt) \<and>
   create_output_directory rich_env ''TCS.NS'' after_attempt =
     (Inr ''stock_data_TCS_NS'', after_makedirs) \<and>
   successful_files (fetch_all rich_env ''stock_data_TCS_NS'' after_makedirs) = 1 \<and>
   fst (get_stock_data rich_env ''TCS.NS'' ''TCS'' 3 2 empty_world) =
     (True,
      [''stock_data_TCS_NS/historical_data.csv'', ''stock_data_TCS_NS/summary_report.txt''],
      Some ''stock_data_TCS_NS/summary_report.txt'')"
proof -
  obtain ok fs sp w' where g:
    "get_stock_data rich_env ''TCS.NS'' ''TCS'' 3 2 empty_world = ((ok, fs, sp), w')"
    by (metis prod.exhaust)
  note inv = file_list_invariant [OF rich_loop rich_dir g]
  have len: "length fs = 2" using inv rich_fetch(1) by simp
  then have "fs \<noteq> []" by auto
  then have "fs = butlast fs @ [last fs]" by simp
  then have "fs = [''stock_data_TCS_NS/historical_data.csv'', ''stock_data_TCS_NS/summary_report.txt'']"
    using inv rich_fetch(2) by (simp add: summary_path historical_path)
  moreover have "ok" using inv rich_fetch(1) by simp
  moreover have "sp = Some ''stock_data_TCS_NS/summary_report.txt''"
    using inv by (simp add: summary_path)
  ultimately show ?thesis
    using g rich_loop rich_dir rich_fetch(1) by simp
qed

lemma rich_result:
  "fst (get_stock_data rich_env ''TCS.NS'' name 3 2 empty_world) =
     (True,
      [''stock_data_TCS_NS/historical_data.csv'', ''stock_data_TCS_NS/summary_report.txt''],
      Some ''stock_data_TCS_NS/summary_report.txt'')"
proof -
  let ?s = "fetch_all rich_env ''stock_data_TCS_NS'' after_makedirs"
  obtain es b w3 where sp:
    "get_stock_data_try rich_env ''TCS.NS'' name 3 2 empty_world =
        (Inr (0 < successful_files ?s,
              generated_files ?s @ [os_path_join ''stock_data_TCS_NS'' summary_filename],
              Some (os_path_join ''stock_data_TCS_NS'' summary_filename)), w3)"
    "trace (wld ?s) = trace after_makedirs @ es"
    "generated_files ?s = map (os_path_join ''stock_data_TCS_NS'') (saved_names es)"
    using success_path [OF rich_loop rich_dir, of name] by blast
  have "since after_makedirs (wld ?s) = es"
    using sp(2) by (rule since_append)
  then have "saved_names es = [''historical_data.csv'']"
    using rich_fetch(2) by simp
  then show ?thesis
    using sp(1,3) rich_fetch(1) by (simp add: get_stock_data_def summary_path historical_path)
qed

theorem one_file_per_category_witness:
  "distinct (fst (snd (fst (get_stock_data rich_env ''TCS.NS'' ''TCS'' 3 2 empty_world)))) \<and>
   distinct (map filename_of categories @ [summary_filename]) \<and>
   map_of (files (snd (get_stock_data rich_env ''TCS.NS'' ''TCS'' 3 2 empty_world)))
     ''stock_data_TCS_NS/historical_data.csv'' = Some (Csv (DataFrame 2 3 ''rows''))"
proof -
  obtain ok fs sp w' where g:
    "get_stock_data rich_env ''TCS.NS'' ''TCS'' 3 2 empty_world = ((ok, fs, sp), w')"
    by (metis prod.exhaust)
  note inst = one_file_per_category [OF g]
  from inst have d: "distinct fs" "distinct (map filename_of categories @ [summary_filename])"
    by blast+
  have c: "Historical \<in> set categories"
    by (simp add: categories_def)
  have p: "os_path_join (output_dir_name ''TCS.NS'') (filename_of Historical) =
      ''stock_data_TCS_NS/historical_data.csv''"
    by (simp add: output_dir_name_def replace_char_def historical_path)
  have "fs = [''stock_data_TCS_NS/historical_data.csv'', ''stock_data_TCS_NS/summary_report.txt'']"
    using rich_result [of "''TCS''"] g by simp
  then have m: "os_path_join (output_dir_name ''TCS.NS'') (filename_of Historical) \<in> set fs"
    using p by simp
  from inst c m obtain data where h: "handed_over rich_env Historical = Some data"
    "map_of (files w') (os_path_join (output_dir_name ''TCS.NS'') (filename_of Historical)) =
       rendered rich_env data"
    by blast
  have "handed_over rich_env Historical = Some (PyFrame (DataFrame 2 3 ''rows''))"
    by (simp add: handed_over_def rich_env_def quiet_env_def not_empty_def)
  with h(1) have data: "data = PyFrame (DataFrame 2 3 ''rows'')" by simp
  from h(2) have "map_of (files w') ''stock_data_TCS_NS/historical_data.csv'' =
      rendered rich_env data"
    unfolding p .
  then have "map_of (files w') ''stock_data_TCS_NS/historical_data.csv'' =
      Some (Csv (DataFrame 2 3 ''rows''))"
    unfolding data by (simp add: rendered_def)
  with d g show ?thesis by simp
qed

lemma nodir_try:
  "get_stock_data_try nodir_env ''TCS.NS'' ''TCS'' 3 2 empty_world =
     (Inl OSError, \<lparr>dirs = [], files = [], trace = [EvAttempt 0, EvMakedirs ''stock_data_TCS_NS'']\<rparr>)"
  by (simp add: get_stock_data_try_def py_range_3 create_output_directory_def
      output_dir_name_def replace_char_def os_path_exists_def os_makedirs_def emit_def Let_def
      nodir_env_def quiet_env_def empty_world_def)

theorem outer_handler_witness:
  "get_stock_data_try nodir_env ''TCS.NS'' ''TCS'' 3 2 empty_world =
     (Inl OSError, \<lparr>dirs = [], files = [], trace = [EvAttempt 0, EvMakedirs ''stock_data_TCS_NS'']\<rparr>) \<and>
   get_stock_data nodir_env ''TCS.NS'' ''TCS'' 3 2 empty_world =
     ((False, [], None), \<lparr>dirs = [], files = [], trace = [EvAttempt 0, EvMakedirs ''stock_data_TCS_NS'']\<rparr>)"
  using outer_handler [of nodir_env "''TCS.NS''" "''TCS''" 3 2 empty_world] nodir_try
  by simp

theorem bounded_retries_witness:
  "fst (get_stock_data offline_env ''TCS.NS'' ''TCS'' 3 2 empty_world) = (False, [], None) \<and>
   since empty_world (snd (get_stock_data offline_env ''TCS.NS'' ''TCS'' 3 2 empty_world)) =
     [EvAttempt 0, EvSleep 2, EvAttempt 1, EvSleep 2, EvAttempt 2]"
proof -
  obtain r w' where g: "get_stock_data offline_env ''TCS.NS'' ''TCS'' 3 2 empty_world = (r, w')"
    by (cases "get_stock_data offline_env ''TCS.NS'' ''TCS'' 3 2 empty_world")
  have off: "attempts offline_env j \<noteq> Valid" for j
    by (simp add: offline_env_def quiet_env_def)
  have "(1::int) \<le> 3" by simp
  from bounded_retries [OF this g] obtain k rest where h:
    "since empty_world w' = attempt_events 2 [0..<k] @ rest"
    "attempts offline_env (k - 1) \<noteq> Valid \<longrightarrow>
       (k = nat 3 \<or> (2::int) < 0) \<and> rest = [] \<and> r = (False, [], None) \<and>
       files w' = files empty_world \<and> dirs w' = dirs empty_world"
    by blast
  from h(2) off have k: "k = 3" "rest = []" "r = (False, [], None)" by simp_all
  have "[0..<3] = [0, 1, 2]" by (simp add: upt_conv_Cons)
  with h(1) k g show ?thesis by simp
qed

theorem run_scraper_result_witness:
  "run_scraper (\<lambda>_. rich_env) ''T C S'' 3 2 empty_world =
     Inr (True,
          [''stock_data_TCS_NS/historical_data.csv'', ''stock_data_TCS_NS/summary_report.txt''],
          Some ''stock_data_TCS_NS/summary_report.txt'')"
proof -
  let ?W = "\<lambda>_::string. rich_env"
  let ?rs = "call_results ?W ''T C S'' 3 2 [''TCS.NS''] [''TCS.NS''] empty_world"
  note inst = run_scraper_result [of ?W "''T C S''" 3 2 "[''TCS.NS'']" empty_world]
  have run: "run_scraper ?W ''T C S'' 3 2 empty_world =
      scrape_tickers ?W ''T C S'' 3 2 [''TCS.NS''] empty_world"
    using inst [of True "[]" None] by simp
  obtain ok fs sp where r: "run_scraper ?W ''T C S'' 3 2 empty_world = Inr (ok, fs, sp)"
    using inst [of True "[]" None] by (metis prod.exhaust)
  have rs: "?rs = [(True,
          [''stock_data_TCS_NS/historical_data.csv'', ''stock_data_TCS_NS/summary_report.txt''],
          Some ''stock_data_TCS_NS/summary_report.txt'')]"
    using rich_result [of "''T C S''"] by (auto split: prod.splits)
  from inst [of ok fs sp] r run
  have "ok \<longleftrightarrow> (\<exists>r\<in>set ?rs. fst r)"
    "fs = concat (map (\<lambda>(ok, fs, p). fs) (succeeded ?rs))"
    "sp = last_summary None ?rs"
    by simp_all
  then have "ok"
    "fs = [''stock_data_TCS_NS/historical_data.csv'', ''stock_data_TCS_NS/summary_report.txt'']"
    "sp = Some ''stock_data_TCS_NS/summary_report.txt''"
    unfolding rs by (simp_all add: succeeded_def last_summary_def truthy_path_def)
  with r show ?thesis by simp
qed


end
